theory Spec2Isabelle
  imports
    Complex_Main
    "HOL-Library.AList"
    "HOL-Library.Char_ord"
    "HOL-Library.List_Lexorder"
begin

section \<open>Python values as the dashboard sees them\<close>

text \<open>
  The heating dashboard (\<^verbatim>\<open>dashboard2.0.py\<close>) keeps all of its state in
  \<^verbatim>\<open>st.session_state\<close> and feeds it from JSON lines read off a serial link.
  Everything \<^verbatim>\<open>json.loads\<close> can return is a value of \<open>json\<close>: the code never
  checks the shape of a message, so a field may hold any of them, and the model follows
  every value through the same operations as the source, with Python's exceptions as
  results. A Python float is a rational or the value NaN, which \<^verbatim>\<open>json.loads\<close> returns
  for the token \<^verbatim>\<open>NaN\<close> and which every arithmetic operation hands on (no infinities, no
  rounding); a string is a list of characters; a dict is an association list in
  insertion order, read with \<open>map_of\<close> and written with \<open>AList.update\<close>.
\<close>

datatype json =
    JNull
  | JBool bool
  | JInt int
  | JFloat rat
  | JNaN
  | JStr string
  | JList "json list"
  | JDict "(string \<times> json) list"

datatype py_error = AttributeError | TypeError | IndexError | KeyError | ValueError

text \<open>Truth value testing (\<^verbatim>\<open>if x:\<close>, \<^verbatim>\<open>x or y\<close>, \<^verbatim>\<open>not x\<close>).\<close>

fun py_truthy :: "json \<Rightarrow> bool" where
  "py_truthy JNull = False"
| "py_truthy (JBool b) = b"
| "py_truthy (JInt i) = (i \<noteq> 0)"
| "py_truthy (JFloat r) = (r \<noteq> 0)"
| "py_truthy JNaN = True"
| "py_truthy (JStr s) = (s \<noteq> [])"
| "py_truthy (JList xs) = (xs \<noteq> [])"
| "py_truthy (JDict kvs) = (kvs \<noteq> [])"

text \<open>The numeric value of a number that has one; \<^verbatim>\<open>bool\<close> is a subclass of
  \<^verbatim>\<open>int\<close>. \<open>py_float\<close> is the float object of an arithmetic result, where \<open>None\<close>
  stands for NaN.\<close>

fun py_num :: "json \<Rightarrow> rat option" where
  "py_num (JBool b) = Some (if b then 1 else 0)"
| "py_num (JInt i) = Some (of_int i)"
| "py_num (JFloat r) = Some r"
| "py_num _ = None"

fun py_float :: "rat option \<Rightarrow> json" where
  "py_float (Some r) = JFloat r"
| "py_float None = JNaN"

text \<open>
  \<^verbatim>\<open>==\<close> on JSON values: numbers compare by value across \<^verbatim>\<open>bool\<close>, \<^verbatim>\<open>int\<close> and
  \<^verbatim>\<open>float\<close>, lists element by element, dicts by their key sets and the values under each
  key, whatever the order, and values of different kinds are unequal. \<open>py_norm\<close> maps a
  value to the representative of its equality class. NaN is equal to nothing, itself
  included, when it is one of the two values compared. Inside a list or a dict the
  comparison of two elements takes the same object as equal before it asks \<^verbatim>\<open>==\<close>, and
  every NaN that \<^verbatim>\<open>json.loads\<close> puts into a list or a dict is the one object
  \<^verbatim>\<open>json.decoder.NaN\<close>; so two decoded containers with NaN at the same places are equal.
  The values the code compares that come out of arithmetic (\<^verbatim>\<open>shelf - 1\<close>) are never
  inside a container.
\<close>

fun py_norm :: "json \<Rightarrow> json" where
  "py_norm JNull = JNull"
| "py_norm (JBool b) = JFloat (if b then 1 else 0)"
| "py_norm (JInt i) = JFloat (of_int i)"
| "py_norm (JFloat r) = JFloat r"
| "py_norm JNaN = JNaN"
| "py_norm (JStr s) = JStr s"
| "py_norm (JList xs) = JList (map py_norm xs)"
| "py_norm (JDict kvs) =
     JDict (sort_key fst (AList.clearjunk (map (\<lambda>(k, v). (k, py_norm v)) kvs)))"

definition py_eq :: "json \<Rightarrow> json \<Rightarrow> bool" where
  "py_eq x y = (x \<noteq> JNaN \<and> y \<noteq> JNaN \<and> py_norm x = py_norm y)"

text \<open>\<^verbatim>\<open>d.get(k, default)\<close>: only a dict has the method.\<close>

fun py_get :: "json \<Rightarrow> string \<Rightarrow> json \<Rightarrow> py_error + json" where
  "py_get (JDict kvs) k d = Inr (case map_of kvs k of Some v \<Rightarrow> v | None \<Rightarrow> d)"
| "py_get _ k d = Inl AttributeError"

text \<open>\<^verbatim>\<open>d[k]\<close> with a string key on a dict built by \<^verbatim>\<open>json.loads\<close>.\<close>

fun py_item :: "json \<Rightarrow> string \<Rightarrow> py_error + json" where
  "py_item (JDict kvs) k = (case map_of kvs k of Some v \<Rightarrow> Inr v | None \<Rightarrow> Inl KeyError)"
| "py_item _ k = Inl TypeError"

fun py_len :: "json \<Rightarrow> py_error + nat" where
  "py_len (JStr s) = Inr (length s)"
| "py_len (JList xs) = Inr (length xs)"
| "py_len (JDict kvs) = Inr (length (AList.clearjunk kvs))"
| "py_len _ = Inl TypeError"

text \<open>What a \<^verbatim>\<open>for\<close> loop runs over: the elements of a list, the characters of a string,
  the keys of a dict.\<close>

fun py_iter :: "json \<Rightarrow> py_error + json list" where
  "py_iter (JList xs) = Inr xs"
| "py_iter (JStr s) = Inr (map (\<lambda>c. JStr [c]) s)"
| "py_iter (JDict kvs) = Inr (map (\<lambda>(k, v). JStr k) (AList.clearjunk kvs))"
| "py_iter _ = Inl TypeError"

text \<open>\<^verbatim>\<open>x[i]\<close> for a literal index \<open>i\<close> that the caller has checked against \<^verbatim>\<open>len(x)\<close>:
  a dict from JSON has string keys only, so an integer key is never there.\<close>

fun py_index :: "json \<Rightarrow> nat \<Rightarrow> py_error + json" where
  "py_index (JList xs) i = (if i < length xs then Inr (xs ! i) else Inl IndexError)"
| "py_index (JStr s) i = (if i < length s then Inr (JStr [s ! i]) else Inl IndexError)"
| "py_index (JDict kvs) i = Inl KeyError"
| "py_index _ i = Inl TypeError"

text \<open>\<^verbatim>\<open>x + n\<close> for an integer literal \<open>n\<close> (negative for \<^verbatim>\<open>x - n\<close>).\<close>

fun py_add_int :: "json \<Rightarrow> int \<Rightarrow> py_error + json" where
  "py_add_int (JBool b) n = Inr (JInt ((if b then 1 else 0) + n))"
| "py_add_int (JInt i) n = Inr (JInt (i + n))"
| "py_add_int (JFloat r) n = Inr (JFloat (r + of_int n))"
| "py_add_int JNaN n = Inr JNaN"
| "py_add_int _ n = Inl TypeError"

text \<open>\<^verbatim>\<open>xs[i] = v\<close> on a Python list: a negative index counts from the end.\<close>

definition list_setitem :: "'a list \<Rightarrow> json \<Rightarrow> 'a \<Rightarrow> py_error + 'a list" where
  "list_setitem xs i v =
     (case i of
        JInt k \<Rightarrow>
          (let n = int (length xs); j = (if k < 0 then n + k else k)
           in if 0 \<le> j \<and> j < n then Inr (xs[nat j := v]) else Inl IndexError)
      | JBool b \<Rightarrow>
          (let j = (if b then 1 else 0 :: nat)
           in if j < length xs then Inr (xs[j := v]) else Inl IndexError)
      | _ \<Rightarrow> Inl TypeError)"

definition list_getitem :: "'a list \<Rightarrow> json \<Rightarrow> py_error + 'a" where
  "list_getitem xs i =
     (case i of
        JInt k \<Rightarrow>
          (let n = int (length xs); j = (if k < 0 then n + k else k)
           in if 0 \<le> j \<and> j < n then Inr (xs ! nat j) else Inl IndexError)
      | JBool b \<Rightarrow>
          (let j = (if b then 1 else 0 :: nat)
           in if j < length xs then Inr (xs ! j) else Inl IndexError)
      | _ \<Rightarrow> Inl TypeError)"

text \<open>\<^verbatim>\<open>str.upper()\<close>, on the ASCII letters.\<close>

definition upper_char :: "char \<Rightarrow> char" where
  "upper_char c =
     (let n = (of_char c :: nat) in if 97 \<le> n \<and> n \<le> 122 then char_of (n - 32) else c)"

fun py_upper :: "json \<Rightarrow> py_error + string" where
  "py_upper (JStr s) = Inr (map upper_char s)"
| "py_upper _ = Inl AttributeError"

text \<open>\<^verbatim>\<open>deque(maxlen=n).append(x)\<close>: the oldest entries fall out on the left.\<close>

definition deque_append :: "nat \<Rightarrow> 'a list \<Rightarrow> 'a \<Rightarrow> 'a list" where
  "deque_append maxlen d x = drop (length d + 1 - maxlen) (d @ [x])"

section \<open>The session state\<close>

text \<open>
  \<^verbatim>\<open>init_state\<close> fills \<^verbatim>\<open>st.session_state\<close>; the fields below are the ones the
  telemetry, alarm and demo code reads or writes. A shelf and an alarm are dicts with a
  fixed set of keys, so they are records; their values are whatever the telemetry
  delivered. Log lines are f-strings in the source; each constructor of \<open>log_entry\<close>
  stands for one of these formats and keeps its arguments. The clock
  (\<^verbatim>\<open>time.time()\<close>, \<^verbatim>\<open>ts_now()\<close>) is read by the caller and passed in as \<open>now\<close>.
\<close>

record shelf_state =
  is_on :: json
  setpoint :: json
  upper :: json
  lower :: json

record alarm =
  shelf :: json
  name :: json
  desc :: json
  ts :: rat
  ack :: json

record maintenance_rec =
  fan_hours :: json
  element_hours :: json
  fan_life_hours :: json
  element_life_hours :: json

datatype log_entry =
    LogAlarm rat string json json
  | LogAck rat string json json
  | LogCleared rat string json json
  | LogAckAll rat
  | LogRaw rat string
  | LogReadError rat string
  | LogMessage json json json

record state =
  num_shelves :: nat
  shelves :: "shelf_state list"
  hist :: "(int \<times> json list) list"
  latest_temp :: "json list"
  alarms :: "(string \<times> alarm list) list"
  logs :: "log_entry list"
  maintenance :: maintenance_rec
  last_update_ts :: rat
  last_tick :: rat

definition LOG_LIMIT :: nat where "LOG_LIMIT = 400"
definition HISTORY_LEN :: nat where "HISTORY_LEN = 300"
definition DEFAULT_NUM_SHELVES :: nat where "DEFAULT_NUM_SHELVES = 2"
definition MIN_TEMP :: rat where "MIN_TEMP = 0"
definition MAX_TEMP :: rat where "MAX_TEMP = 120"

definition default_shelf :: shelf_state where
  "default_shelf = \<lparr>is_on = JBool True, setpoint = JFloat 75, upper = JFloat 77, lower = JFloat 73\<rparr>"

definition empty_hist :: "nat \<Rightarrow> (int \<times> json list) list" where
  "empty_hist n = map (\<lambda>i. (int i, [])) [0..<n]"

definition init_state :: "rat \<Rightarrow> state" where
  "init_state now =
     \<lparr>num_shelves = DEFAULT_NUM_SHELVES,
      shelves = replicate DEFAULT_NUM_SHELVES default_shelf,
      hist = empty_hist DEFAULT_NUM_SHELVES,
      latest_temp = replicate DEFAULT_NUM_SHELVES JNull,
      alarms = [(''CRITICAL'', []), (''ERROR'', [])],
      logs = [],
      maintenance = \<lparr>fan_hours = JFloat 0, element_hours = JFloat 0,
                      fan_life_hours = JFloat 2000, element_life_hours = JFloat 3000\<rparr>,
      last_update_ts = 0,
      last_tick = now\<rparr>"

text \<open>A call either returns or raises; the state it leaves behind is kept in both cases,
  because the source mutates the session state in place.\<close>

datatype outcome = Done state | Raised py_error state

definition try_val :: "py_error + 'a \<Rightarrow> state \<Rightarrow> ('a \<Rightarrow> outcome) \<Rightarrow> outcome" where
  "try_val r st k = (case r of Inl e \<Rightarrow> Raised e st | Inr v \<Rightarrow> k v)"

definition and_then :: "outcome \<Rightarrow> (state \<Rightarrow> outcome) \<Rightarrow> outcome" where
  "and_then r k = (case r of Done st \<Rightarrow> k st | Raised e st \<Rightarrow> Raised e st)"

fun final_state :: "outcome \<Rightarrow> state" where
  "final_state (Done st) = st"
| "final_state (Raised e st) = st"

definition log_append :: "log_entry \<Rightarrow> state \<Rightarrow> state" where
  "log_append e st = st\<lparr>logs := deque_append LOG_LIMIT (logs st) e\<rparr>"

section \<open>The alarm registry\<close>

text \<open>\<^verbatim>\<open>st.session_state.alarms\<close> maps a severity to the list of its alarm records.\<close>

definition bucket :: "state \<Rightarrow> string \<Rightarrow> alarm list" where
  "bucket st sev = (case map_of (alarms st) sev of Some arr \<Rightarrow> arr | None \<Rightarrow> [])"

definition setdefault :: "'k \<Rightarrow> 'v \<Rightarrow> ('k \<times> 'v) list \<Rightarrow> ('k \<times> 'v) list" where
  "setdefault k d al = (case map_of al k of Some v \<Rightarrow> al | None \<Rightarrow> al @ [(k, d)])"

definition alarm_matches :: "json \<Rightarrow> json \<Rightarrow> alarm \<Rightarrow> bool" where
  "alarm_matches sh nm a = (py_eq (shelf a) sh \<and> py_eq (name a) nm)"

definition find_alarm :: "state \<Rightarrow> string \<Rightarrow> json \<Rightarrow> json \<Rightarrow> alarm option" where
  "find_alarm st sev sh nm = List.find (alarm_matches sh nm) (bucket st sev)"

definition add_alarm :: "rat \<Rightarrow> string \<Rightarrow> json \<Rightarrow> json \<Rightarrow> json \<Rightarrow> json \<Rightarrow> state \<Rightarrow> state" where
  "add_alarm now sev sh nm ds ak st =
     (let st1 = st\<lparr>alarms := setdefault sev [] (alarms st)\<rparr>;
          arr = bucket st1 sev
      in if find_alarm st1 sev sh nm = None
         then log_append (LogAlarm now sev sh nm)
                (st1\<lparr>alarms := AList.update sev
                   (arr @ [\<lparr>shelf = sh, name = nm, desc = ds, ts = now, ack = ak\<rparr>]) (alarms st1)\<rparr>)
         else st1)"



definition clear_alarm :: "rat \<Rightarrow> string \<Rightarrow> json \<Rightarrow> json \<Rightarrow> state \<Rightarrow> outcome" where
  "clear_alarm now sev sh nm st =
     (case map_of (alarms st) sev of
        None \<Rightarrow> Raised KeyError st
      | Some arr \<Rightarrow>
          if list_ex (alarm_matches sh nm) arr
          then Done (log_append (LogCleared now sev sh nm)
                 (st\<lparr>alarms := AList.update sev
                    (filter (\<lambda>a. \<not> alarm_matches sh nm a) arr) (alarms st)\<rparr>))
          else Done st)"

definition ack_bucket :: "string \<Rightarrow> state \<Rightarrow> outcome" where
  "ack_bucket sev st =
     (case map_of (alarms st) sev of
        None \<Rightarrow> Raised KeyError st
      | Some arr \<Rightarrow>
          Done (st\<lparr>alarms := AList.update sev (map (\<lambda>a. a\<lparr>ack := JBool True\<rparr>) arr) (alarms st)\<rparr>))"

definition ack_all_alarms :: "rat \<Rightarrow> state \<Rightarrow> outcome" where
  "ack_all_alarms now st =
     and_then (ack_bucket ''CRITICAL'' st) (\<lambda>st1.
     and_then (ack_bucket ''ERROR'' st1) (\<lambda>st2.
     Done (log_append (LogAckAll now) st2)))"

section \<open>Telemetry: \<^verbatim>\<open>process_msg\<close>\<close>

fun for_each :: "('a \<Rightarrow> state \<Rightarrow> outcome) \<Rightarrow> 'a list \<Rightarrow> state \<Rightarrow> outcome" where
  "for_each body [] st = Done st"
| "for_each body (x # xs) st = and_then (body x st) (for_each body xs)"

text \<open>The block under \<^verbatim>\<open>if count != st.session_state.num_shelves\<close>: the shelf list, the
  history buffers and the latest temperatures are rebuilt; nothing else is assigned.\<close>

definition resize_shelves :: "nat \<Rightarrow> state \<Rightarrow> state" where
  "resize_shelves count st =
     st\<lparr>num_shelves := count,
        shelves := replicate count default_shelf,
        hist := empty_hist count,
        latest_temp := replicate count JNull\<rparr>"

text \<open>\<^verbatim>\<open>st.session_state.shelves[idx][field] = v\<close>.\<close>

definition shelf_update :: "json \<Rightarrow> (shelf_state \<Rightarrow> shelf_state) \<Rightarrow> state \<Rightarrow> outcome" where
  "shelf_update idx f st =
     try_val (list_getitem (shelves st) idx) st (\<lambda>b.
     try_val (list_setitem (shelves st) idx (f b)) st (\<lambda>xs.
     Done (st\<lparr>shelves := xs\<rparr>)))"

text \<open>The key under which a number is found in \<^verbatim>\<open>hist\<close>, whose keys are the integers
  \<^verbatim>\<open>range(count)\<close>: a float with an integral value hashes and compares like the integer,
  NaN equals no key, a list or a dict cannot be hashed at all.\<close>

fun py_int_key :: "json \<Rightarrow> py_error + int option" where
  "py_int_key (JInt k) = Inr (Some k)"
| "py_int_key (JBool b) = Inr (Some (if b then 1 else 0))"
| "py_int_key (JFloat r) = Inr (if r = of_int \<lfloor>r\<rfloor> then Some \<lfloor>r\<rfloor> else None)"
| "py_int_key (JList xs) = Inl TypeError"
| "py_int_key (JDict kvs) = Inl TypeError"
| "py_int_key _ = Inr None"

text \<open>\<^verbatim>\<open>st.session_state.hist[idx].append(v)\<close>.\<close>

definition hist_append :: "json \<Rightarrow> json \<Rightarrow> state \<Rightarrow> outcome" where
  "hist_append idx v st =
     try_val (py_int_key idx) st (\<lambda>key.
       case key of
         None \<Rightarrow> Raised KeyError st
       | Some k \<Rightarrow>
           (case map_of (hist st) k of
              None \<Rightarrow> Raised KeyError st
            | Some d \<Rightarrow> Done (st\<lparr>hist := AList.update k (deque_append HISTORY_LEN d v) (hist st)\<rparr>)))"

text \<open>\<^verbatim>\<open>alarms[sev] = [a for a in alarms[sev] if a["shelf"] != idx]\<close>, for the two
  severities the loop names.\<close>

definition drop_shelf_bucket :: "string \<Rightarrow> json \<Rightarrow> state \<Rightarrow> outcome" where
  "drop_shelf_bucket sev idx st =
     (case map_of (alarms st) sev of
        None \<Rightarrow> Raised KeyError st
      | Some arr \<Rightarrow>
          Done (st\<lparr>alarms := AList.update sev (filter (\<lambda>a. \<not> py_eq (shelf a) idx) arr) (alarms st)\<rparr>))"

definition drop_shelf_alarms :: "json \<Rightarrow> state \<Rightarrow> outcome" where
  "drop_shelf_alarms idx st =
     and_then (drop_shelf_bucket ''CRITICAL'' idx st) (drop_shelf_bucket ''ERROR'' idx)"

text \<open>One turn of \<^verbatim>\<open>for a in sh.get("alarms", [])\<close> in the \<^verbatim>\<open>STATUS\<close> branch.\<close>

definition status_alarm :: "rat \<Rightarrow> json \<Rightarrow> json \<Rightarrow> state \<Rightarrow> outcome" where
  "status_alarm now idx a st =
     try_val (py_get a ''name'' (JStr ''ALARM'')) st (\<lambda>nm.
     try_val (py_get a ''active'' (JBool False)) st (\<lambda>active.
     try_val (py_get a ''severity'' (JStr ''ERROR'')) st (\<lambda>sv.
     try_val (py_upper sv) st (\<lambda>sev.
     try_val (py_get a ''desc'' nm) st (\<lambda>ds.
     if py_truthy active
     then try_val (py_get a ''ack'' (JBool False)) st (\<lambda>ak.
            Done (add_alarm now sev idx nm ds ak st))
     else Done st)))))"

text \<open>The alarm mapping of one \<^verbatim>\<open>STATUS\<close> entry: clear the shelf's alarms, then rebuild
  them from the entry.\<close>

definition status_alarms :: "rat \<Rightarrow> json \<Rightarrow> json \<Rightarrow> state \<Rightarrow> outcome" where
  "status_alarms now idx sh st =
     and_then (drop_shelf_alarms idx st) (\<lambda>st1.
     try_val (py_get sh ''alarms'' (JList [])) st1 (\<lambda>al.
     try_val (py_iter al) st1 (\<lambda>as.
     for_each (status_alarm now idx) as st1)))"

text \<open>The hours of one \<^verbatim>\<open>STATUS\<close> entry go into the one maintenance record.\<close>

definition status_hours :: "json \<Rightarrow> state \<Rightarrow> outcome" where
  "status_hours sh st =
     try_val (py_get sh ''fanHours'' (fan_hours (maintenance st))) st (\<lambda>fh.
     let st1 = st\<lparr>maintenance := (maintenance st)\<lparr>fan_hours := fh\<rparr>\<rparr> in
     try_val (py_get sh ''elementHours'' (element_hours (maintenance st1))) st1 (\<lambda>eh.
     Done (st1\<lparr>maintenance := (maintenance st1)\<lparr>element_hours := eh\<rparr>\<rparr>)))"

text \<open>The body of \<^verbatim>\<open>for idx, sh in enumerate(shelves)\<close>; \<open>i\<close> is the position that
  \<^verbatim>\<open>enumerate\<close> supplies, \<open>idx\<close> the index the body computes from the entry.\<close>

definition status_entry :: "rat \<Rightarrow> nat \<Rightarrow> json \<Rightarrow> state \<Rightarrow> outcome" where
  "status_entry now i sh st =
     try_val (py_get sh ''shelf'' (JInt (int i))) st (\<lambda>incomingShelf.
     try_val (py_add_int incomingShelf (- 1)) st (\<lambda>idx.
     try_val (py_get sh ''temp'' JNull) st (\<lambda>temp.
     try_val (py_get sh ''setpoint'' (JList [JFloat 75, JFloat 77, JFloat 73])) st (\<lambda>sp_arr.
     try_val (py_len sp_arr) st (\<lambda>n.
     try_val (if n > 0 then py_index sp_arr 0 else Inr (JFloat 75)) st (\<lambda>sp.
     try_val (if n > 1 then py_index sp_arr 1 else py_add_int sp 2) st (\<lambda>up.
     try_val (if n > 2 then py_index sp_arr 2 else py_add_int sp (- 2)) st (\<lambda>lo.
     try_val (list_setitem (latest_temp st) idx temp) st (\<lambda>lt.
     and_then (shelf_update idx (\<lambda>b. b\<lparr>setpoint := sp\<rparr>) (st\<lparr>latest_temp := lt\<rparr>)) (\<lambda>st1.
     and_then (shelf_update idx (\<lambda>b. b\<lparr>upper := up\<rparr>) st1) (\<lambda>st2.
     and_then (shelf_update idx (\<lambda>b. b\<lparr>lower := lo\<rparr>) st2) (\<lambda>st3.
     try_val (py_get sh ''systemOn'' (JBool True)) st3 (\<lambda>on.
     and_then (shelf_update idx (\<lambda>b. b\<lparr>is_on := on\<rparr>) st3) (\<lambda>st4.
     and_then (if temp \<noteq> JNull then hist_append idx temp st4 else Done st4) (\<lambda>st5.
     and_then (status_hours sh st5) (\<lambda>st6.
     status_alarms now idx sh st6))))))))))))))))"

text \<open>The maintenance mapping at the end of the \<^verbatim>\<open>STATUS\<close> branch:
  \<^verbatim>\<open>m = msg.get("maintenance", [2000, 3000])\<close>, taken when it is a list of two or more.\<close>

definition status_maintenance :: "json \<Rightarrow> state \<Rightarrow> outcome" where
  "status_maintenance msg st =
     try_val (py_get msg ''maintenance'' (JList [JInt 2000, JInt 3000])) st (\<lambda>m.
     case m of
       JList ms \<Rightarrow>
         if length ms \<ge> 2
         then Done (st\<lparr>maintenance :=
                 (maintenance st)\<lparr>fan_life_hours := ms ! 0, element_life_hours := ms ! 1\<rparr>\<rparr>)
         else Done st
     | _ \<Rightarrow> Done st)"

definition process_status :: "rat \<Rightarrow> json \<Rightarrow> state \<Rightarrow> outcome" where
  "process_status now msg st =
     try_val (py_get msg ''shelves'' (JList [])) st (\<lambda>shelves_v.
     try_val (py_len shelves_v) st (\<lambda>count.
     let st1 = (if count \<noteq> num_shelves st then resize_shelves count st else st) in
     try_val (py_iter shelves_v) st1 (\<lambda>entries.
     and_then (for_each (\<lambda>(i, sh). status_entry now i sh) (enumerate 0 entries) st1) (\<lambda>st2.
     and_then (status_maintenance msg st2) (\<lambda>st3.
     Done (st3\<lparr>last_update_ts := now\<rparr>))))))"

definition process_live_temp :: "rat \<Rightarrow> json \<Rightarrow> state \<Rightarrow> outcome" where
  "process_live_temp now msg st =
     try_val (py_get msg ''shelf'' (JInt 1)) st (\<lambda>s.
     try_val (py_add_int s (- 1)) st (\<lambda>i.
     try_val (py_get msg ''value'' JNull) st (\<lambda>val.
     try_val (list_setitem (latest_temp st) i val) st (\<lambda>lt.
     and_then (hist_append i val (st\<lparr>latest_temp := lt\<rparr>)) (\<lambda>st1.
     Done (st1\<lparr>last_update_ts := now\<rparr>))))))"

text \<open>One turn of \<^verbatim>\<open>for a in msg.get("alarms", [])\<close> in the \<^verbatim>\<open>ALARM_STATE\<close> branch.\<close>

definition alarm_state_alarm :: "rat \<Rightarrow> json \<Rightarrow> json \<Rightarrow> state \<Rightarrow> outcome" where
  "alarm_state_alarm now i a st =
     try_val (py_get a ''severity'' JNull) st (\<lambda>sv.
     try_val (py_upper (if py_truthy sv then sv else JStr ''ERROR'')) st (\<lambda>sev.
     try_val (py_get a ''active'' JNull) st (\<lambda>active.
     if py_truthy active
     then try_val (py_item a ''name'') st (\<lambda>nm.
          try_val (py_get a ''desc'' nm) st (\<lambda>ds.
          try_val (py_get a ''ack'' (JBool False)) st (\<lambda>ak.
          Done (add_alarm now sev i nm ds ak st))))
     else Done st)))"

definition process_alarm_state :: "rat \<Rightarrow> json \<Rightarrow> state \<Rightarrow> outcome" where
  "process_alarm_state now msg st =
     try_val (py_get msg ''shelf'' (JInt 1)) st (\<lambda>s.
     try_val (py_add_int s (- 1)) st (\<lambda>i.
     and_then (drop_shelf_alarms i st) (\<lambda>st1.
     try_val (py_get msg ''alarms'' (JList [])) st1 (\<lambda>al.
     try_val (py_iter al) st1 (\<lambda>as.
     and_then (for_each (alarm_state_alarm now i) as st1) (\<lambda>st2.
     Done (st2\<lparr>last_update_ts := now\<rparr>)))))))"

text \<open>The \<^verbatim>\<open>LOG\<close> branch. \<^verbatim>\<open>time.localtime\<close> takes a number or \<^verbatim>\<open>None\<close> (the current
  time) and rejects NaN with \<^verbatim>\<open>ValueError\<close>; the timestamp is taken to lie in the range
  the platform's clock can represent.\<close>

definition process_log :: "rat \<Rightarrow> json \<Rightarrow> state \<Rightarrow> outcome" where
  "process_log now msg st =
     try_val (py_get msg ''ts'' (JFloat now)) st (\<lambda>t.
     if t = JNaN then Raised ValueError st
     else if t \<noteq> JNull \<and> py_num t = None then Raised TypeError st
     else
       try_val (py_get msg ''level'' (JStr ''INFO'')) st (\<lambda>level.
       try_val (py_get msg ''msg'' (JStr [])) st (\<lambda>m.
       Done (log_append (LogMessage (if t = JNull then JFloat now else t) level m) st))))"

definition process_msg :: "rat \<Rightarrow> json \<Rightarrow> state \<Rightarrow> outcome" where
  "process_msg now msg st =
     try_val (py_get msg ''type'' JNull) st (\<lambda>t.
     if py_eq t (JStr ''STATUS'') then process_status now msg st
     else if py_eq t (JStr ''LIVE_TEMP'') then process_live_temp now msg st
     else if py_eq t (JStr ''ALARM_STATE'') then process_alarm_state now msg st
     else if py_eq t (JStr ''LOG'') then process_log now msg st
     else Done st)"

section \<open>The serial link: \<^verbatim>\<open>read_all\<close> and \<^verbatim>\<open>read_from_pi\<close>\<close>

text \<open>
  What one \<^verbatim>\<open>readline()\<close> call leads to: a line that is empty once stripped, a line
  that \<^verbatim>\<open>json.loads\<close> rejects, a line it decodes, or an exception of the port. The list
  of pending lines ends where \<^verbatim>\<open>readline()\<close> would time out and return nothing.
\<close>

datatype serial_line = Blank | Undecodable string | Decoded json | ReadFailure string

fun read_all_loop ::
  "rat \<Rightarrow> nat \<Rightarrow> serial_line list \<Rightarrow> json list \<Rightarrow> state \<Rightarrow> json list \<times> state" where
  "read_all_loop now 0 ls msgs st = (msgs, st)"
| "read_all_loop now (Suc n) [] msgs st = (msgs, st)"
| "read_all_loop now (Suc n) (Blank # ls) msgs st = read_all_loop now n ls msgs st"
| "read_all_loop now (Suc n) (Undecodable s # ls) msgs st =
     read_all_loop now n ls msgs (log_append (LogRaw now s) st)"
| "read_all_loop now (Suc n) (Decoded v # ls) msgs st = read_all_loop now n ls (msgs @ [v]) st"
| "read_all_loop now (Suc n) (ReadFailure e # ls) msgs st =
     (msgs, log_append (LogReadError now e) st)"

definition read_all :: "rat \<Rightarrow> bool \<Rightarrow> serial_line list \<Rightarrow> state \<Rightarrow> json list \<times> state" where
  "read_all now link_open ls st = (if \<not> link_open then ([], st) else read_all_loop now 200 ls [] st)"

definition read_from_pi :: "rat \<Rightarrow> bool \<Rightarrow> serial_line list \<Rightarrow> state \<Rightarrow> outcome" where
  "read_from_pi now link_open ls st =
     (if \<not> link_open then Done st
      else (case read_all now link_open ls st of (msgs, st1) \<Rightarrow> for_each (process_msg now) msgs st1))"

section \<open>The demo generator\<close>

text \<open>
  The simulated tick under \<^verbatim>\<open>if st.session_state.demo_mode\<close>. \<open>rnd i\<close> is the number
  that \<^verbatim>\<open>random.uniform\<close> returns for shelf \<open>i\<close>, and \<open>fmt sep x y\<close> is the text of the
  f-string that describes the alarm, for the separator \<open>sep\<close> and the two temperatures.
\<close>

text \<open>\<^verbatim>\<open>(b["lower"] + b["upper"]) / 2\<close>: a sum that is not a number cannot be divided,
  and the mean of two numbers is NaN when one of them is.\<close>

definition py_midpoint :: "json \<Rightarrow> json \<Rightarrow> py_error + json" where
  "py_midpoint lo up =
     (case (py_num lo, py_num up) of
        (Some a, Some b) \<Rightarrow> Inr (JFloat ((a + b) / 2))
      | (Some a, None) \<Rightarrow> if up = JNaN then Inr JNaN else Inl TypeError
      | (None, Some b) \<Rightarrow> if lo = JNaN then Inr JNaN else Inl TypeError
      | (None, None) \<Rightarrow> if lo = JNaN \<and> up = JNaN then Inr JNaN else Inl TypeError)"

text \<open>\<^verbatim>\<open>cur += r\<close> and \<^verbatim>\<open>cur -= r\<close> for a float \<open>r\<close>; the result \<open>None\<close> is NaN.\<close>

definition py_add_float :: "json \<Rightarrow> rat \<Rightarrow> py_error + rat option" where
  "py_add_float x r =
     (case py_num x of
        Some a \<Rightarrow> Inr (Some (a + r))
      | None \<Rightarrow> if x = JNaN then Inr None else Inl TypeError)"

text \<open>\<^verbatim>\<open>max(lo, min(hi, v))\<close> for a float \<open>v\<close> (\<open>None\<close> is NaN) between two numbers:
  \<^verbatim>\<open>min\<close> and \<^verbatim>\<open>max\<close> keep their first argument unless the second is smaller, or
  greater, and no comparison with NaN holds.\<close>

definition clamp :: "rat option \<Rightarrow> rat \<Rightarrow> rat \<Rightarrow> rat" where
  "clamp v lo hi =
     (let m = (case v of Some x \<Rightarrow> if x < hi then x else hi | None \<Rightarrow> hi)
      in if m > lo then m else lo)"

text \<open>The alarm heuristic of the tick, for the shelf \<open>i\<close>, its new temperature \<open>cur\<close>
  and the number \<open>up\<close> held in \<^verbatim>\<open>b["upper"]\<close>.\<close>

definition demo_alarm_heuristic ::
  "rat \<Rightarrow> (string \<Rightarrow> rat \<Rightarrow> rat \<Rightarrow> string) \<Rightarrow> nat \<Rightarrow> rat \<Rightarrow> rat \<Rightarrow> state \<Rightarrow> outcome" where
  "demo_alarm_heuristic now fmt i cur up st =
     (if cur > up + 6 then
        clear_alarm now ''ERROR'' (JInt (int i)) (JStr ''OVERTEMP'')
          (add_alarm now ''CRITICAL'' (JInt (int i)) (JStr ''OVERHEAT'')
             (JStr (fmt ''>>'' cur up)) (JBool False) st)
      else if cur > up + 3 then
        clear_alarm now ''CRITICAL'' (JInt (int i)) (JStr ''OVERHEAT'')
          (add_alarm now ''ERROR'' (JInt (int i)) (JStr ''OVERTEMP'')
             (JStr (fmt ''>'' cur up)) (JBool False) st)
      else
        and_then (clear_alarm now ''ERROR'' (JInt (int i)) (JStr ''OVERTEMP'') st)
          (clear_alarm now ''CRITICAL'' (JInt (int i)) (JStr ''OVERHEAT'')))"

text \<open>The body of \<^verbatim>\<open>for i in range(st.session_state.num_shelves)\<close>. When the upper
  bound of the shelf is NaN, \<^verbatim>\<open>cur > b["upper"] + 6\<close> and \<^verbatim>\<open>cur > b["upper"] + 3\<close> are
  both false and the last branch of the heuristic runs.\<close>

definition demo_shelf ::
  "rat \<Rightarrow> (string \<Rightarrow> rat \<Rightarrow> rat \<Rightarrow> string) \<Rightarrow> (nat \<Rightarrow> rat) \<Rightarrow> nat \<Rightarrow> state \<Rightarrow> outcome" where
  "demo_shelf now fmt rnd i st =
     try_val (list_getitem (shelves st) (JInt (int i))) st (\<lambda>b.
     try_val (list_getitem (latest_temp st) (JInt (int i))) st (\<lambda>lt.
     try_val (if py_truthy lt then Inr lt else py_midpoint (lower b) (upper b)) st (\<lambda>cur0.
     try_val (py_add_float cur0 (if py_truthy (is_on b) then rnd i else - rnd i)) st (\<lambda>cur1.
     let cur = clamp cur1 MIN_TEMP MAX_TEMP in
     try_val (list_setitem (latest_temp st) (JInt (int i)) (JFloat cur)) st (\<lambda>lts.
     and_then (hist_append (JInt (int i)) (JFloat cur) (st\<lparr>latest_temp := lts\<rparr>)) (\<lambda>st1.
     case py_num (upper b) of
       None \<Rightarrow>
         if upper b = JNaN
         then and_then (clear_alarm now ''ERROR'' (JInt (int i)) (JStr ''OVERTEMP'') st1)
                (clear_alarm now ''CRITICAL'' (JInt (int i)) (JStr ''OVERHEAT''))
         else Raised TypeError st1
     | Some up \<Rightarrow> demo_alarm_heuristic now fmt i cur up st1))))))"

text \<open>\<^verbatim>\<open>maintenance["fan_hours"] += delta_h\<close>, then the same for the element.\<close>

definition accrue_hours :: "rat \<Rightarrow> state \<Rightarrow> outcome" where
  "accrue_hours delta_h st =
     try_val (py_add_float (fan_hours (maintenance st)) delta_h) st (\<lambda>fh.
     let st1 = st\<lparr>maintenance := (maintenance st)\<lparr>fan_hours := py_float fh\<rparr>\<rparr> in
     try_val (py_add_float (element_hours (maintenance st1)) delta_h) st1 (\<lambda>eh.
     Done (st1\<lparr>maintenance := (maintenance st1)\<lparr>element_hours := py_float eh\<rparr>\<rparr>)))"

definition demo_tick ::
  "rat \<Rightarrow> (string \<Rightarrow> rat \<Rightarrow> rat \<Rightarrow> string) \<Rightarrow> (nat \<Rightarrow> rat) \<Rightarrow> state \<Rightarrow> outcome" where
  "demo_tick now fmt rnd st =
     and_then (for_each (demo_shelf now fmt rnd) [0..<num_shelves st] st) (\<lambda>st1.
     and_then (if list_ex (\<lambda>sh. py_truthy (is_on sh)) (shelves st1)
               then accrue_hours ((now - last_tick st1) / 3600) st1 else Done st1) (\<lambda>st2.
     Done (st2\<lparr>last_tick := now, last_update_ts := now\<rparr>)))"

section \<open>The first dashboard: \<^verbatim>\<open>dashboard.py\<close>\<close>

text \<open>
  The older script keeps its alarms per shelf, \<^verbatim>\<open>alarms = {i: [] for i in range(NUM_SHELVES)}\<close>,
  and the severity is a field of the record. Its \<^verbatim>\<open>add_alarm\<close> is called with a shelf
  number, and with names, severities and descriptions that are string literals or
  choices of a select box.
\<close>

record alarm0 =
  name0 :: string
  severity0 :: string
  ack0 :: bool
  desc0 :: string
  ts0 :: rat

datatype log_entry0 = LogTriggered rat int string string

record state0 =
  alarms0 :: "(int \<times> alarm0 list) list"
  logs0 :: "log_entry0 list"

definition add_alarm0 ::
  "rat \<Rightarrow> int \<Rightarrow> string \<Rightarrow> string \<Rightarrow> string \<Rightarrow> state0 \<Rightarrow> py_error + state0" where
  "add_alarm0 now sh nm sev ds st =
     (case map_of (alarms0 st) sh of
        None \<Rightarrow> Inl KeyError
      | Some arr \<Rightarrow>
          if \<not> list_ex (\<lambda>a. name0 a = nm) arr
          then Inr (st\<lparr>alarms0 := AList.update sh
                      (arr @ [\<lparr>name0 = nm, severity0 = sev, ack0 = False, desc0 = ds, ts0 = now\<rparr>])
                      (alarms0 st),
                    logs0 := deque_append 300 (logs0 st) (LogTriggered now sh nm sev)\<rparr>)
          else Inr st)"

section \<open>States and vocabulary of the properties\<close>

text \<open>A state of \<^verbatim>\<open>dashboard.py\<close> in which shelf 0 carries one ERROR alarm.\<close>

definition overtemp_error0 :: state0 where
  "overtemp_error0 =
     \<lparr>alarms0 = [(0, [\<lparr>name0 = ''OVERTEMP'', severity0 = ''ERROR'', ack0 = False, desc0 = ''x'', ts0 = 1\<rparr>]), (1, [])],
      logs0 = []\<rparr>"

text \<open>A snapshot that raises an alarm of a severity other than CRITICAL and ERROR, and the
  state the initial session is in after it.\<close>

definition door_snapshot :: json where
  "door_snapshot =
     JDict [(''type'', JStr ''ALARM_STATE''), (''shelf'', JInt 1),
            (''alarms'', JList [JDict [(''name'', JStr ''DOOR''), (''severity'', JStr ''warning''),
                                       (''active'', JBool True)]])]"

definition warning_state :: state where
  "warning_state = final_state (process_msg 1 door_snapshot (init_state 0))"

text \<open>Whether a call came back without raising.\<close>

fun returned :: "outcome \<Rightarrow> bool" where
  "returned (Done st) = True"
| "returned (Raised e st) = False"

text \<open>A temperature sample for the first shelf.\<close>

definition sample_msg :: json where
  "sample_msg = JDict [(''type'', JStr ''LIVE_TEMP''), (''shelf'', JInt 1), (''value'', JFloat 50)]"

text \<open>The message kinds that \<^verbatim>\<open>process_msg\<close> has a branch for.\<close>

definition known_kind :: "json \<Rightarrow> bool" where
  "known_kind t \<longleftrightarrow> t \<in> {JStr ''STATUS'', JStr ''LIVE_TEMP'', JStr ''ALARM_STATE'', JStr ''LOG''}"

text \<open>The shape in which \<^verbatim>\<open>init_state\<close> and every resize leave the shelf store: one shelf
  record, one latest temperature and one history buffer for each of the
  \<^verbatim>\<open>num_shelves\<close> shelves.\<close>

definition store_ok :: "state \<Rightarrow> bool" where
  "store_ok st \<longleftrightarrow>
     length (shelves st) = num_shelves st \<and>
     length (latest_temp st) = num_shelves st \<and>
     map fst (hist st) = map int [0..<num_shelves st]"

text \<open>A temperature sample that names the shelf \<open>k\<close>.\<close>

definition sample_for :: "int \<Rightarrow> json" where
  "sample_for k = JDict [(''type'', JStr ''LIVE_TEMP''), (''shelf'', JInt k), (''value'', JFloat 50)]"

text \<open>What a \<^verbatim>\<open>STATUS\<close> entry carries under a key, and the value that
  \<^verbatim>\<open>sh.get(k, d)\<close> yields for it; the index the loop body computes for an entry; the
  maintenance record after the hours of an entry have been taken.\<close>

definition carried :: "string \<Rightarrow> json \<Rightarrow> json option" where
  "carried k sh = (case sh of JDict kvs \<Rightarrow> map_of kvs k | _ \<Rightarrow> None)"

definition pick :: "string \<Rightarrow> json \<Rightarrow> json \<Rightarrow> json" where
  "pick k sh d = (case carried k sh of Some v \<Rightarrow> v | None \<Rightarrow> d)"

definition entry_idx :: "nat \<Rightarrow> json \<Rightarrow> json option" where
  "entry_idx i sh =
     (case py_get sh ''shelf'' (JInt (int i)) of
        Inr v \<Rightarrow> (case py_add_int v (- 1) of Inr idx \<Rightarrow> Some idx | Inl e \<Rightarrow> None)
      | Inl e \<Rightarrow> None)"

definition entry_hours :: "json \<Rightarrow> maintenance_rec \<Rightarrow> maintenance_rec" where
  "entry_hours sh m =
     m\<lparr>fan_hours := pick ''fanHours'' sh (fan_hours m),
       element_hours := pick ''elementHours'' sh (element_hours m)\<rparr>"

text \<open>Two \<^verbatim>\<open>STATUS\<close> messages for two shelves without a \<^verbatim>\<open>maintenance\<close> field, a state
  whose life ceilings an earlier message has set to 5000 and 6000 hours, and the pair of
  the two ceilings.\<close>

definition plain_status :: json where
  "plain_status =
     JDict [(''type'', JStr ''STATUS''),
            (''shelves'', JList [JDict [(''shelf'', JInt 1), (''temp'', JFloat 50), (''fanHours'', JFloat 12)],
                                 JDict [(''shelf'', JInt 2), (''temp'', JFloat 51)]])]"

definition hours_status :: json where
  "hours_status =
     JDict [(''type'', JStr ''STATUS''),
            (''shelves'', JList [JDict [(''shelf'', JInt 1), (''fanHours'', JFloat 12), (''elementHours'', JFloat 7)],
                                 JDict [(''shelf'', JInt 2), (''fanHours'', JFloat 15)]])]"

definition long_life_state :: state where
  "long_life_state =
     (init_state 0)\<lparr>maintenance := \<lparr>fan_hours = JFloat 0, element_hours = JFloat 0,
                                      fan_life_hours = JInt 5000, element_life_hours = JInt 6000\<rparr>\<rparr>"

definition life_ceilings :: "state \<Rightarrow> json \<times> json" where
  "life_ceilings st = (fan_life_hours (maintenance st), element_life_hours (maintenance st))"

text \<open>Whether the registry holds an alarm of a severity and name for a shelf, whether a
  shelf carries both the CRITICAL overheat and the ERROR overtemperature alarm, and a
  state in which the first shelf is 13 degrees above its upper bound.\<close>

definition has_alarm :: "state \<Rightarrow> string \<Rightarrow> nat \<Rightarrow> string \<Rightarrow> bool" where
  "has_alarm st sev i nm = list_ex (alarm_matches (JInt (int i)) (JStr nm)) (bucket st sev)"

definition both_hot :: "state \<Rightarrow> nat \<Rightarrow> bool" where
  "both_hot st i \<longleftrightarrow> has_alarm st ''CRITICAL'' i ''OVERHEAT'' \<and> has_alarm st ''ERROR'' i ''OVERTEMP''"

definition hot_state :: state where
  "hot_state = (init_state 0)\<lparr>latest_temp := [JFloat 90, JFloat 50]\<rparr>"

text \<open>
  The vocabulary of the snapshot properties. The severities whose buckets a snapshot
  clears; the records of a bucket that belong to a shelf index and those that do not;
  the first record of each name in a list. For an element of the alarm list of a
  \<^verbatim>\<open>STATUS\<close> entry, and for one of an \<^verbatim>\<open>ALARM_STATE\<close> message, whether it is flagged
  active, its severity in upper case, and the record that \<^verbatim>\<open>add_alarm\<close> is called with;
  then the records a snapshot raises in one severity, in the order of the list. Last,
  a state with an ERROR alarm on each of the two shelves and a snapshot for the first
  shelf.
\<close>

definition covered :: "string \<Rightarrow> bool" where
  "covered sev \<longleftrightarrow> sev = ''CRITICAL'' \<or> sev = ''ERROR''"

definition shelf_records :: "json \<Rightarrow> state \<Rightarrow> string \<Rightarrow> alarm list" where
  "shelf_records idx st sev = filter (\<lambda>a. py_eq (shelf a) idx) (bucket st sev)"

definition other_shelves :: "json \<Rightarrow> state \<Rightarrow> string \<Rightarrow> alarm list" where
  "other_shelves idx st sev = filter (\<lambda>a. \<not> py_eq (shelf a) idx) (bucket st sev)"

fun keep_first :: "alarm list \<Rightarrow> alarm list" where
  "keep_first [] = []"
| "keep_first (r # rs) = r # keep_first (filter (\<lambda>x. \<not> py_eq (name x) (name r)) rs)"

definition upper_or_empty :: "json \<Rightarrow> string" where
  "upper_or_empty v = (case py_upper v of Inr s \<Rightarrow> s | Inl e \<Rightarrow> [])"

definition status_active :: "json \<Rightarrow> bool" where
  "status_active a = py_truthy (pick ''active'' a (JBool False))"

definition status_sev :: "json \<Rightarrow> string" where
  "status_sev a = upper_or_empty (pick ''severity'' a (JStr ''ERROR''))"

definition status_record :: "rat \<Rightarrow> json \<Rightarrow> json \<Rightarrow> alarm" where
  "status_record now idx a =
     \<lparr>shelf = idx, name = pick ''name'' a (JStr ''ALARM''),
      desc = pick ''desc'' a (pick ''name'' a (JStr ''ALARM'')),
      ts = now, ack = pick ''ack'' a (JBool False)\<rparr>"

definition status_raised :: "rat \<Rightarrow> json \<Rightarrow> json list \<Rightarrow> string \<Rightarrow> alarm list" where
  "status_raised now idx as sev =
     map (status_record now idx) (filter (\<lambda>a. status_active a \<and> status_sev a = sev) as)"

definition snapshot_active :: "json \<Rightarrow> bool" where
  "snapshot_active a = py_truthy (pick ''active'' a JNull)"

definition snapshot_sev :: "json \<Rightarrow> string" where
  "snapshot_sev a =
     upper_or_empty (if py_truthy (pick ''severity'' a JNull) then pick ''severity'' a JNull
                     else JStr ''ERROR'')"

definition snapshot_record :: "rat \<Rightarrow> json \<Rightarrow> json \<Rightarrow> alarm" where
  "snapshot_record now idx a =
     \<lparr>shelf = idx, name = pick ''name'' a JNull,
      desc = pick ''desc'' a (pick ''name'' a JNull),
      ts = now, ack = pick ''ack'' a (JBool False)\<rparr>"

definition snapshot_raised :: "rat \<Rightarrow> json \<Rightarrow> json list \<Rightarrow> string \<Rightarrow> alarm list" where
  "snapshot_raised now idx as sev =
     map (snapshot_record now idx) (filter (\<lambda>a. snapshot_active a \<and> snapshot_sev a = sev) as)"

definition raise_rec :: "string \<Rightarrow> alarm \<Rightarrow> state \<Rightarrow> state" where
  "raise_rec sev r st = add_alarm (ts r) sev (shelf r) (name r) (desc r) (ack r) st"

definition insert_new :: "alarm list \<Rightarrow> alarm \<Rightarrow> alarm list" where
  "insert_new L r = (if \<exists>a\<in>set L. py_eq (name a) (name r) then L else L @ [r])"

definition fan_state :: state where
  "fan_state =
     add_alarm 1 ''ERROR'' (JInt 1) (JStr ''FAN'') (JStr ''fan stalled'') (JBool False)
       (add_alarm 1 ''ERROR'' (JInt 0) (JStr ''OVERTEMP'') (JStr ''x'') (JBool False) (init_state 0))"

definition overheat_snapshot :: json where
  "overheat_snapshot =
     JDict [(''type'', JStr ''ALARM_STATE''), (''shelf'', JInt 1),
            (''alarms'', JList [JDict [(''name'', JStr ''OVERHEAT''), (''severity'', JStr ''critical''),
                                       (''active'', JBool True), (''ack'', JBool True)],
                                JDict [(''name'', JStr ''OVERTEMP''), (''active'', JBool False)]])]"

text \<open>A list of alarms that reports an acknowledged WARNING and an acknowledged CRITICAL
  alarm, the \<^verbatim>\<open>ALARM_STATE\<close> message and the \<^verbatim>\<open>STATUS\<close> entry that carry it for the
  first shelf, and a state in which the first shelf has an unacknowledged WARNING alarm
  next to the ERROR alarms of the two shelves.\<close>

definition acked_alarms :: "json list" where
  "acked_alarms =
     [JDict [(''name'', JStr ''DOOR''), (''severity'', JStr ''warning''),
             (''active'', JBool True), (''ack'', JBool True)],
      JDict [(''name'', JStr ''OVERHEAT''), (''severity'', JStr ''critical''),
             (''active'', JBool True), (''ack'', JBool True)]]"

definition acked_snapshot :: json where
  "acked_snapshot =
     JDict [(''type'', JStr ''ALARM_STATE''), (''shelf'', JInt 1), (''alarms'', JList acked_alarms)]"

definition acked_entry :: json where
  "acked_entry = JDict [(''shelf'', JInt 1), (''alarms'', JList acked_alarms)]"

definition mixed_state :: state where
  "mixed_state =
     add_alarm 1 ''WARNING'' (JInt 0) (JStr ''DOOR'') (JStr ''door open'') (JBool False) fan_state"

text \<open>A \<^verbatim>\<open>STATUS\<close> message for two shelves whose second entry names the shelf 3.\<close>

definition gap_status :: json where
  "gap_status =
     JDict [(''type'', JStr ''STATUS''),
            (''shelves'', JList [JDict [(''shelf'', JInt 1), (''temp'', JFloat 50)],
                                 JDict [(''shelf'', JInt 3), (''temp'', JFloat 51)]])]"









section \<open>The alarm registry: raising\<close>

lemma py_eq_refl: "py_eq x x \<longleftrightarrow> x \<noteq> JNaN" by (simp add: py_eq_def)

lemma bucket_setdefault: "bucket (st\<lparr>alarms := setdefault sev [] (alarms st)\<rparr>) sev' = bucket st sev'"
  by (auto simp: bucket_def setdefault_def split: option.splits if_splits)

lemma find_alarm_setdefault:
  "find_alarm (st\<lparr>alarms := setdefault sev [] (alarms st)\<rparr>) sev' sh nm = find_alarm st sev' sh nm"
  by (simp add: find_alarm_def bucket_setdefault)

lemma bucket_update: "bucket (st\<lparr>alarms := AList.update sev arr al\<rparr>) sev' = (if sev' = sev then arr else bucket (st\<lparr>alarms := al\<rparr>) sev')"
  by (simp add: bucket_def update_conv')

lemma bucket_log_append: "bucket (log_append e st) sev = bucket st sev"
  by (simp add: bucket_def log_append_def)

lemma find_Some_setdefault:
  "find_alarm st sev sh nm = Some a \<Longrightarrow> setdefault sev [] (alarms st) = alarms st"
  by (auto simp: find_alarm_def bucket_def setdefault_def split: option.splits)

lemma bucket_add_alarm:
  "bucket (add_alarm now sev sh nm ds ak st) sev' =
     (if sev' = sev \<and> find_alarm st sev sh nm = None
      then bucket st sev @ [\<lparr>shelf = sh, name = nm, desc = ds, ts = now, ack = ak\<rparr>]
      else bucket st sev')"
  by (simp add: add_alarm_def Let_def find_alarm_setdefault bucket_log_append bucket_update bucket_setdefault)

lemma logs_add_alarm:
  "logs (add_alarm now sev sh nm ds ak st) =
     (if find_alarm st sev sh nm = None then deque_append LOG_LIMIT (logs st) (LogAlarm now sev sh nm)
      else logs st)"
  by (simp add: add_alarm_def Let_def find_alarm_setdefault log_append_def)

lemma add_alarm_found: "find_alarm st sev sh nm \<noteq> None \<Longrightarrow> add_alarm now sev sh nm ds ak st = st"
  by (auto simp: add_alarm_def Let_def find_alarm_setdefault find_Some_setdefault)

lemma alarm_matches_new:
  "alarm_matches sh nm \<lparr>shelf = sh, name = nm, desc = ds, ts = now, ack = ak\<rparr>
     \<longleftrightarrow> py_eq sh sh \<and> py_eq nm nm"
  by (simp add: alarm_matches_def)

lemma find_alarm_after_add:
  assumes "py_eq sh sh" and "py_eq nm nm"
  shows "find_alarm (add_alarm now sev sh nm ds ak st) sev sh nm \<noteq> None"
proof (cases "find_alarm st sev sh nm")
  case None
  then have "List.find (alarm_matches sh nm) (bucket (add_alarm now sev sh nm ds ak st) sev) \<noteq> None"
    using alarm_matches_new [of sh nm ds now ak] assms
    by (auto simp: bucket_add_alarm find_None_iff)
  then show ?thesis by (simp add: find_alarm_def)
next
  case (Some a)
  then show ?thesis by (simp add: add_alarm_found)
qed

lemma find_alarm_unequal: "\<not> (py_eq sh sh \<and> py_eq nm nm) \<Longrightarrow> find_alarm st sev sh nm = None"
  by (auto simp: find_alarm_def find_None_iff alarm_matches_def py_eq_def)

lemma add_alarm0_absent:
  "map_of (alarms0 st) sh = Some arr \<Longrightarrow> \<not> list_ex (\<lambda>a. name0 a = nm) arr \<Longrightarrow>
   add_alarm0 now sh nm sev ds st =
     Inr (st\<lparr>alarms0 := AList.update sh
                (arr @ [\<lparr>name0 = nm, severity0 = sev, ack0 = False, desc0 = ds, ts0 = now\<rparr>]) (alarms0 st),
              logs0 := deque_append 300 (logs0 st) (LogTriggered now sh nm sev)\<rparr>)"
  by (simp add: add_alarm0_def)

lemma add_alarm0_present:
  "map_of (alarms0 st) sh = Some arr \<Longrightarrow> list_ex (\<lambda>a. name0 a = nm) arr \<Longrightarrow>
   add_alarm0 now sh nm sev ds st = Inr st"
  by (simp add: add_alarm0_def)

lemma add_alarm0_twice:
  "add_alarm0 now sh nm sev ds st = Inr st' \<Longrightarrow> add_alarm0 now2 sh nm sev2 ds2 st' = Inr st'"
  by (auto simp: add_alarm0_def update_conv' list_ex_iff split: option.splits if_splits)

text \<open>
  Claim C3, as the code has it. In \<^verbatim>\<open>dashboard2.0.py\<close> a raise for the key (severity,
  shelf, name) inserts one record, with the description, time and acknowledged flag it
  was given, and one log entry, when \<^verbatim>\<open>_find_alarm\<close> finds no record with that shelf and
  name in the severity's bucket; when it finds one the whole state stays as it is. When
  the shelf and the name each compare equal to themselves, which every value does but
  the float NaN, the inserted record is the one record of its key, and any second raise
  with the same key changes nothing, whatever description, time or flag it brings. A
  shelf or a name that is NaN matches no record, its own included: every raise with it
  inserts one more record. In \<^verbatim>\<open>dashboard.py\<close> the key is the shelf and the name: a
  raise inserts an unacknowledged record and logs when the shelf has no record of that
  name, whatever its severity, and is otherwise without effect.
\<close>

theorem raise_idempotent:
  "(let st' = add_alarm now sev sh nm ds ak st;
        r = \<lparr>shelf = sh, name = nm, desc = ds, ts = now, ack = ak\<rparr>
    in (find_alarm st sev sh nm = None \<longrightarrow>
            bucket st' sev = bucket st sev @ [r] \<and>
            logs st' = deque_append LOG_LIMIT (logs st) (LogAlarm now sev sh nm))
       \<and> (find_alarm st sev sh nm \<noteq> None \<longrightarrow> st' = st)
       \<and> (py_eq sh sh \<and> py_eq nm nm \<longrightarrow>
            (find_alarm st sev sh nm = None \<longrightarrow> filter (alarm_matches sh nm) (bucket st' sev) = [r]) \<and>
            add_alarm now2 sev sh nm ds2 ak2 st' = st')
       \<and> (\<not> (py_eq sh sh \<and> py_eq nm nm) \<longrightarrow>
            find_alarm st sev sh nm = None \<and>
            bucket (add_alarm now2 sev sh nm ds2 ak2 st') sev
              = bucket st sev @ [r, \<lparr>shelf = sh, name = nm, desc = ds2, ts = now2, ack = ak2\<rparr>]))
   \<and> (map_of (alarms0 s0) i = Some arr \<longrightarrow>
        (let r0 = \<lparr>name0 = n0, severity0 = sev0, ack0 = False, desc0 = d0, ts0 = t0\<rparr>
         in (\<not> list_ex (\<lambda>a. name0 a = n0) arr \<longrightarrow>
               (\<exists>s1. add_alarm0 t0 i n0 sev0 d0 s0 = Inr s1 \<and>
                     map_of (alarms0 s1) i = Some (arr @ [r0]) \<and>
                     logs0 s1 = deque_append 300 (logs0 s0) (LogTriggered t0 i n0 sev0) \<and>
                     add_alarm0 now2 i n0 sev2 d2 s1 = Inr s1))
          \<and> (list_ex (\<lambda>a. name0 a = n0) arr \<longrightarrow> add_alarm0 t0 i n0 sev0 d0 s0 = Inr s0)))"
proof (intro conjI)
  show "let st' = add_alarm now sev sh nm ds ak st;
        r = \<lparr>shelf = sh, name = nm, desc = ds, ts = now, ack = ak\<rparr>
    in (find_alarm st sev sh nm = None \<longrightarrow>
            bucket st' sev = bucket st sev @ [r] \<and>
            logs st' = deque_append LOG_LIMIT (logs st) (LogAlarm now sev sh nm))
       \<and> (find_alarm st sev sh nm \<noteq> None \<longrightarrow> st' = st)
       \<and> (py_eq sh sh \<and> py_eq nm nm \<longrightarrow>
            (find_alarm st sev sh nm = None \<longrightarrow> filter (alarm_matches sh nm) (bucket st' sev) = [r]) \<and>
            add_alarm now2 sev sh nm ds2 ak2 st' = st')
       \<and> (\<not> (py_eq sh sh \<and> py_eq nm nm) \<longrightarrow>
            find_alarm st sev sh nm = None \<and>
            bucket (add_alarm now2 sev sh nm ds2 ak2 st') sev
              = bucket st sev @ [r, \<lparr>shelf = sh, name = nm, desc = ds2, ts = now2, ack = ak2\<rparr>])"
    unfolding Let_def
  proof (intro conjI impI)
    assume "find_alarm st sev sh nm = None"
    then show "bucket (add_alarm now sev sh nm ds ak st) sev
        = bucket st sev @ [\<lparr>shelf = sh, name = nm, desc = ds, ts = now, ack = ak\<rparr>]"
      by (simp add: bucket_add_alarm)
  next
    assume "find_alarm st sev sh nm = None"
    then show "logs (add_alarm now sev sh nm ds ak st)
        = deque_append LOG_LIMIT (logs st) (LogAlarm now sev sh nm)"
      by (simp add: logs_add_alarm)
  next
    assume "find_alarm st sev sh nm \<noteq> None"
    then show "add_alarm now sev sh nm ds ak st = st" by (rule add_alarm_found)
  next
    assume "py_eq sh sh \<and> py_eq nm nm" and "find_alarm st sev sh nm = None"
    then show "filter (alarm_matches sh nm) (bucket (add_alarm now sev sh nm ds ak st) sev)
        = [\<lparr>shelf = sh, name = nm, desc = ds, ts = now, ack = ak\<rparr>]"
      by (simp add: bucket_add_alarm find_alarm_def find_None_iff alarm_matches_new)
  next
    assume "py_eq sh sh \<and> py_eq nm nm"
    then have "find_alarm (add_alarm now sev sh nm ds ak st) sev sh nm \<noteq> None"
      by (simp add: find_alarm_after_add)
    then show "add_alarm now2 sev sh nm ds2 ak2 (add_alarm now sev sh nm ds ak st)
        = add_alarm now sev sh nm ds ak st"
      by (rule add_alarm_found)
  next
    assume "\<not> (py_eq sh sh \<and> py_eq nm nm)"
    then show "find_alarm st sev sh nm = None" by (rule find_alarm_unequal)
  next
    assume n: "\<not> (py_eq sh sh \<and> py_eq nm nm)"
    show "bucket (add_alarm now2 sev sh nm ds2 ak2 (add_alarm now sev sh nm ds ak st)) sev
        = bucket st sev @ [\<lparr>shelf = sh, name = nm, desc = ds, ts = now, ack = ak\<rparr>,
                           \<lparr>shelf = sh, name = nm, desc = ds2, ts = now2, ack = ak2\<rparr>]"
      by (simp add: bucket_add_alarm find_alarm_unequal [OF n])
  qed
next
  show "map_of (alarms0 s0) i = Some arr \<longrightarrow>
        (let r0 = \<lparr>name0 = n0, severity0 = sev0, ack0 = False, desc0 = d0, ts0 = t0\<rparr>
         in (\<not> list_ex (\<lambda>a. name0 a = n0) arr \<longrightarrow>
               (\<exists>s1. add_alarm0 t0 i n0 sev0 d0 s0 = Inr s1 \<and>
                     map_of (alarms0 s1) i = Some (arr @ [r0]) \<and>
                     logs0 s1 = deque_append 300 (logs0 s0) (LogTriggered t0 i n0 sev0) \<and>
                     add_alarm0 now2 i n0 sev2 d2 s1 = Inr s1))
          \<and> (list_ex (\<lambda>a. name0 a = n0) arr \<longrightarrow> add_alarm0 t0 i n0 sev0 d0 s0 = Inr s0))"
    unfolding Let_def
  proof (intro impI conjI)
    assume m: "map_of (alarms0 s0) i = Some arr" and a: "\<not> list_ex (\<lambda>a. name0 a = n0) arr"
    from add_alarm0_absent [OF m a, of t0 sev0 d0]
    show "\<exists>s1. add_alarm0 t0 i n0 sev0 d0 s0 = Inr s1 \<and>
         map_of (alarms0 s1) i = Some (arr @ [\<lparr>name0 = n0, severity0 = sev0, ack0 = False, desc0 = d0, ts0 = t0\<rparr>]) \<and>
         logs0 s1 = deque_append 300 (logs0 s0) (LogTriggered t0 i n0 sev0) \<and>
         add_alarm0 now2 i n0 sev2 d2 s1 = Inr s1"
      using add_alarm0_twice [of t0 i n0 sev0 d0 s0]
      by (simp add: update_conv')
  next
    assume "map_of (alarms0 s0) i = Some arr" "list_ex (\<lambda>a. name0 a = n0) arr"
    then show "add_alarm0 t0 i n0 sev0 d0 s0 = Inr s0" by (rule add_alarm0_present)
  qed
qed

text \<open>
  Claim C3 as stated fails on \<^verbatim>\<open>dashboard.py\<close>: shelf 0 holds an ERROR record named
  OVERTEMP and no CRITICAL one, and raising (CRITICAL, 0, OVERTEMP) inserts nothing.
\<close>

theorem raise_other_severity_counterexample:
  "\<not> list_ex (\<lambda>a. severity0 a = ''CRITICAL'' \<and> name0 a = ''OVERTEMP'')
        (the (map_of (alarms0 overtemp_error0) 0))
   \<and> add_alarm0 2 0 ''OVERTEMP'' ''CRITICAL'' ''y'' overtemp_error0 = Inr overtemp_error0"
  by (simp add: overtemp_error0_def add_alarm0_def)

text \<open>
  Claim C3 at concrete inputs: raising (ERROR, 0, OVERTEMP) with "x" and then with "y" on
  the initial registry leaves one record, described "x", raised at the first time and
  unacknowledged; raising twice with the name NaN leaves two records; in
  \<^verbatim>\<open>dashboard.py\<close> a raise on the empty shelf 1 changes the state.
\<close>

theorem raise_idempotent_witness:
  "find_alarm (init_state 0) ''ERROR'' (JInt 0) (JStr ''OVERTEMP'') = None
   \<and> py_eq (JInt 0) (JInt 0) \<and> py_eq (JStr ''OVERTEMP'') (JStr ''OVERTEMP'')
   \<and> map (\<lambda>a. (desc a, ts a, ack a))
       (bucket (add_alarm 2 ''ERROR'' (JInt 0) (JStr ''OVERTEMP'') (JStr ''y'') (JBool True)
          (add_alarm 1 ''ERROR'' (JInt 0) (JStr ''OVERTEMP'') (JStr ''x'') (JBool False) (init_state 0)))
          ''ERROR'')
       = [(JStr ''x'', 1, JBool False)]
   \<and> \<not> py_eq JNaN JNaN
   \<and> map (\<lambda>a. (desc a, ts a, ack a))
       (bucket (add_alarm 2 ''ERROR'' (JInt 0) JNaN (JStr ''y'') (JBool True)
          (add_alarm 1 ''ERROR'' (JInt 0) JNaN (JStr ''x'') (JBool False) (init_state 0)))
          ''ERROR'')
       = [(JStr ''x'', 1, JBool False), (JStr ''y'', 2, JBool True)]
   \<and> map_of (alarms0 overtemp_error0) 1 = Some []
   \<and> add_alarm0 3 1 ''OVERTEMP'' ''CRITICAL'' ''y'' overtemp_error0 \<noteq> Inr overtemp_error0"
proof -
  have f: "find_alarm (init_state 0) ''ERROR'' (JInt 0) (JStr ''OVERTEMP'') = None"
    by (simp add: find_alarm_def bucket_def init_state_def)
  have q: "py_eq (JInt 0) (JInt 0) \<and> py_eq (JStr ''OVERTEMP'') (JStr ''OVERTEMP'')"
    by (simp add: py_eq_def)
  have nq: "\<not> (py_eq (JInt 0) (JInt 0) \<and> py_eq JNaN JNaN)" and nn: "\<not> py_eq JNaN JNaN"
    by (simp_all add: py_eq_def)
  have m: "map_of (alarms0 overtemp_error0) 1 = Some []"
    by (simp add: overtemp_error0_def)
  note t = raise_idempotent [where st = "init_state 0" and sev = "''ERROR''" and sh = "JInt 0"
      and nm = "JStr ''OVERTEMP''" and now = 1 and ds = "JStr ''x''" and ak = "JBool False"
      and ?now2.0 = 2 and ?ds2.0 = "JStr ''y''" and ?ak2.0 = "JBool True"
      and ?s0.0 = overtemp_error0 and i = 1 and arr = "[]" and ?n0.0 = "''OVERTEMP''"
      and ?sev0.0 = "''CRITICAL''" and ?d0.0 = "''y''" and ?t0.0 = 3
      and ?sev2.0 = "''ERROR''" and ?d2.0 = "''z''", unfolded Let_def]
  note u = raise_idempotent [where st = "init_state 0" and sev = "''ERROR''" and sh = "JInt 0"
      and nm = JNaN and now = 1 and ds = "JStr ''x''" and ak = "JBool False"
      and ?now2.0 = 2 and ?ds2.0 = "JStr ''y''" and ?ak2.0 = "JBool True"
      and ?s0.0 = overtemp_error0 and i = 1 and arr = "[]" and ?n0.0 = "''OVERTEMP''"
      and ?sev0.0 = "''CRITICAL''" and ?d0.0 = "''y''" and ?t0.0 = 3
      and ?sev2.0 = "''ERROR''" and ?d2.0 = "''z''", unfolded Let_def]
  from t f have b: "bucket (add_alarm 1 ''ERROR'' (JInt 0) (JStr ''OVERTEMP'') (JStr ''x'') (JBool False) (init_state 0)) ''ERROR''
      = bucket (init_state 0) ''ERROR'' @ [\<lparr>shelf = JInt 0, name = JStr ''OVERTEMP'', desc = JStr ''x'', ts = 1, ack = JBool False\<rparr>]"
    by blast
  from t q have i: "add_alarm 2 ''ERROR'' (JInt 0) (JStr ''OVERTEMP'') (JStr ''y'') (JBool True)
          (add_alarm 1 ''ERROR'' (JInt 0) (JStr ''OVERTEMP'') (JStr ''x'') (JBool False) (init_state 0))
        = add_alarm 1 ''ERROR'' (JInt 0) (JStr ''OVERTEMP'') (JStr ''x'') (JBool False) (init_state 0)"
    by blast
  from u nq have c: "bucket (add_alarm 2 ''ERROR'' (JInt 0) JNaN (JStr ''y'') (JBool True)
          (add_alarm 1 ''ERROR'' (JInt 0) JNaN (JStr ''x'') (JBool False) (init_state 0))) ''ERROR''
      = bucket (init_state 0) ''ERROR'' @
          [\<lparr>shelf = JInt 0, name = JNaN, desc = JStr ''x'', ts = 1, ack = JBool False\<rparr>,
           \<lparr>shelf = JInt 0, name = JNaN, desc = JStr ''y'', ts = 2, ack = JBool True\<rparr>]"
    by blast
  from t m obtain s1 where "add_alarm0 3 1 ''OVERTEMP'' ''CRITICAL'' ''y'' overtemp_error0 = Inr s1"
     and "map_of (alarms0 s1) 1 = Some [\<lparr>name0 = ''OVERTEMP'', severity0 = ''CRITICAL'', ack0 = False, desc0 = ''y'', ts0 = 3\<rparr>]"
    by auto
  with m have n: "add_alarm0 3 1 ''OVERTEMP'' ''CRITICAL'' ''y'' overtemp_error0 \<noteq> Inr overtemp_error0"
    by auto
  have e: "bucket (init_state 0) ''ERROR'' = []"
    by (simp add: bucket_def init_state_def)
  show ?thesis unfolding i b c e using f m n q nn by simp
qed

section \<open>Evaluation rules\<close>

lemma py_eq_JStr [simp]: "py_eq t (JStr s) \<longleftrightarrow> t = JStr s"
  by (cases t) (auto simp: py_eq_def)

lemma py_eq_JInt [simp]: "py_eq (JInt i) (JInt j) \<longleftrightarrow> i = j"
  by (simp add: py_eq_def)

lemma upper_warning: "py_upper (JStr ''warning'') = Inr ''WARNING''"
  by code_simp

lemma try_val_simps [simp]:
  "try_val (Inr v) st k = k v"
  "try_val (Inl e) st k = Raised e st"
  by (simp_all add: try_val_def)

lemma and_then_simps [simp]:
  "and_then (Done st) k = k st"
  "and_then (Raised e st) k = Raised e st"
  by (simp_all add: and_then_def)

section \<open>The alarm registry: acknowledging and unknown severities\<close>

lemma door_snapshot_drop: "drop_shelf_alarms (JInt 0) (init_state 0) = Done (init_state 0)"
  by (simp add: drop_shelf_alarms_def drop_shelf_bucket_def init_state_def)

lemma warning_state_eq:
  "warning_state =
     (add_alarm 1 ''WARNING'' (JInt 0) (JStr ''DOOR'') (JStr ''DOOR'') (JBool False) (init_state 0))
       \<lparr>last_update_ts := 1\<rparr>"
proof -
  have "process_msg 1 door_snapshot (init_state 0) = process_alarm_state 1 door_snapshot (init_state 0)"
    by (simp add: process_msg_def door_snapshot_def)
  also have "\<dots> = Done ((add_alarm 1 ''WARNING'' (JInt 0) (JStr ''DOOR'') (JStr ''DOOR'') (JBool False)
      (init_state 0))\<lparr>last_update_ts := 1\<rparr>)"
    by (simp add: process_alarm_state_def door_snapshot_def door_snapshot_drop alarm_state_alarm_def
          upper_warning del: py_upper.simps)
  finally show ?thesis by (simp add: warning_state_def)
qed

lemma alarms_add_alarm:
  "alarms (add_alarm now sev sh nm ds ak st) =
     (if find_alarm st sev sh nm = None
      then AList.update sev (bucket st sev @ [\<lparr>shelf = sh, name = nm, desc = ds, ts = now, ack = ak\<rparr>])
             (setdefault sev [] (alarms st))
      else alarms st)"
  by (auto simp: add_alarm_def Let_def find_alarm_setdefault bucket_setdefault log_append_def
        find_Some_setdefault)

lemma init_alarms: "alarms (init_state t) = [(''CRITICAL'', []), (''ERROR'', [])]"
  by (simp add: init_state_def)

lemma warning_state_alarms:
  "alarms warning_state =
     [(''CRITICAL'', []), (''ERROR'', []),
      (''WARNING'', [\<lparr>shelf = JInt 0, name = JStr ''DOOR'', desc = JStr ''DOOR'', ts = 1, ack = JBool False\<rparr>])]"
  by (simp add: warning_state_eq alarms_add_alarm find_alarm_def bucket_def init_alarms setdefault_def)

lemma ack_bucket_Done:
  "map_of (alarms st) sev = Some arr \<Longrightarrow>
   ack_bucket sev st = Done (st\<lparr>alarms := AList.update sev (map (\<lambda>a. a\<lparr>ack := JBool True\<rparr>) arr) (alarms st)\<rparr>)"
  by (simp add: ack_bucket_def)

text \<open>
  Claim C5, as the code has it. \<^verbatim>\<open>ack_all_alarms\<close> walks the two buckets it names: when
  both exist it returns, every record of the CRITICAL and of the ERROR bucket is
  acknowledged, every other bucket stays as it was, and one log entry is appended.
\<close>

theorem ack_all_known_buckets:
  assumes c: "map_of (alarms st) ''CRITICAL'' \<noteq> None" and e: "map_of (alarms st) ''ERROR'' \<noteq> None"
  shows "\<exists>st'. ack_all_alarms now st = Done st' \<and>
     bucket st' ''CRITICAL'' = map (\<lambda>a. a\<lparr>ack := JBool True\<rparr>) (bucket st ''CRITICAL'') \<and>
     bucket st' ''ERROR'' = map (\<lambda>a. a\<lparr>ack := JBool True\<rparr>) (bucket st ''ERROR'') \<and>
     (\<forall>sev. sev \<noteq> ''CRITICAL'' \<longrightarrow> sev \<noteq> ''ERROR'' \<longrightarrow> bucket st' sev = bucket st sev) \<and>
     logs st' = deque_append LOG_LIMIT (logs st) (LogAckAll now)"
proof -
  from c obtain cs where cs: "map_of (alarms st) ''CRITICAL'' = Some cs" by auto
  from e obtain es where es: "map_of (alarms st) ''ERROR'' = Some es" by auto
  show ?thesis
    by (simp add: ack_all_alarms_def ack_bucket_def cs es update_conv' bucket_def log_append_def)
qed

text \<open>
  Claim C5 as stated fails: after a snapshot has raised a WARNING alarm,
  \<^verbatim>\<open>ack_all_alarms\<close> returns and the record of the WARNING bucket is still unacknowledged.
\<close>

theorem ack_all_skips_warning_counterexample:
  "returned (ack_all_alarms 2 warning_state) \<and>
   map ack (bucket (final_state (ack_all_alarms 2 warning_state)) ''WARNING'') = [JBool False]"
  by (simp add: ack_all_alarms_def ack_bucket_def bucket_def log_append_def warning_state_alarms)

text \<open>Claim C5 at the state with the WARNING alarm: both named buckets exist, the call
  returns and the WARNING bucket is as before.\<close>

theorem ack_all_known_buckets_witness:
  "map_of (alarms warning_state) ''CRITICAL'' \<noteq> None \<and> map_of (alarms warning_state) ''ERROR'' \<noteq> None \<and>
   returned (ack_all_alarms 2 warning_state) \<and>
   bucket (final_state (ack_all_alarms 2 warning_state)) ''WARNING'' = bucket warning_state ''WARNING''"
proof -
  have c: "map_of (alarms warning_state) ''CRITICAL'' \<noteq> None"
    and e: "map_of (alarms warning_state) ''ERROR'' \<noteq> None"
    by (simp_all add: warning_state_alarms)
  from ack_all_known_buckets [OF c e, of 2] obtain st' where
    d: "ack_all_alarms 2 warning_state = Done st'" and
    r: "\<forall>sev. sev \<noteq> ''CRITICAL'' \<longrightarrow> sev \<noteq> ''ERROR'' \<longrightarrow> bucket st' sev = bucket warning_state sev"
    by blast
  from r have "bucket st' ''WARNING'' = bucket warning_state ''WARNING''" by simp
  with c e d show ?thesis by simp
qed




section \<open>Batches of serial lines\<close>

lemma init_state_explicit:
  "init_state t =
     \<lparr>num_shelves = 2,
      shelves = [default_shelf, default_shelf],
      hist = [(0, []), (1, [])],
      latest_temp = [JNull, JNull],
      alarms = [(''CRITICAL'', []), (''ERROR'', [])],
      logs = [],
      maintenance = \<lparr>fan_hours = JFloat 0, element_hours = JFloat 0,
                      fan_life_hours = JFloat 2000, element_life_hours = JFloat 3000\<rparr>,
      last_update_ts = 0,
      last_tick = t\<rparr>"
  by (simp add: init_state_def DEFAULT_NUM_SHELVES_def empty_hist_def numeral_2_eq_2 upt_rec)

lemma list_setitem_JInt:
  "list_setitem xs (JInt k) v =
     (if 0 \<le> k \<and> k < int (length xs) then Inr (xs[nat k := v])
      else if k < 0 \<and> - int (length xs) \<le> k then Inr (xs[nat (int (length xs) + k) := v])
      else Inl IndexError)"
  by (auto simp: list_setitem_def Let_def)

lemma list_getitem_JInt:
  "list_getitem xs (JInt k) =
     (if 0 \<le> k \<and> k < int (length xs) then Inr (xs ! nat k)
      else if k < 0 \<and> - int (length xs) \<le> k then Inr (xs ! nat (int (length xs) + k))
      else Inl IndexError)"
  by (auto simp: list_getitem_def Let_def)

lemma hist_append_JInt:
  "hist_append (JInt k) v st =
     (case map_of (hist st) k of
        None \<Rightarrow> Raised KeyError st
      | Some d \<Rightarrow> Done (st\<lparr>hist := AList.update k (deque_append HISTORY_LEN d v) (hist st)\<rparr>))"
  by (simp add: hist_append_def)

lemma deque_append_short: "length d < n \<Longrightarrow> deque_append n d x = d @ [x]"
  by (simp add: deque_append_def)

lemma enumerate_two: "enumerate 0 [a, b] = [(0, a), (1, b)]"
  by (simp add: enumerate_eq_zip upt_rec)

lemma shelf_update_JInt:
  "0 \<le> k \<Longrightarrow> k < int (length (shelves st)) \<Longrightarrow>
   shelf_update (JInt k) f st = Done (st\<lparr>shelves := (shelves st)[nat k := f (shelves st ! nat k)]\<rparr>)"
  by (simp add: shelf_update_def list_getitem_JInt list_setitem_JInt)

lemma sample_alone:
  "read_from_pi 1 True [Decoded sample_msg] (init_state 0) =
     Done ((init_state 0)\<lparr>latest_temp := [JFloat 50, JNull], hist := [(0, [JFloat 50]), (1, [])],
                           last_update_ts := 1\<rparr>)"
  by (simp add: read_from_pi_def read_all_def numeral_eq_Suc process_msg_def sample_msg_def
        process_live_temp_def init_state_explicit list_setitem_JInt hist_append_JInt
        deque_append_short HISTORY_LEN_def)

text \<open>
  Claim C7 at the failing input: the line \<^verbatim>\<open>42\<close> is valid JSON, so \<^verbatim>\<open>read_all\<close> puts the
  number among the messages; \<^verbatim>\<open>process_msg\<close> calls \<^verbatim>\<open>msg.get\<close> on it, the
  \<^verbatim>\<open>AttributeError\<close> leaves the loop of \<^verbatim>\<open>read_from_pi\<close>, and the sample that follows in
  the batch is not applied, although alone it sets the temperature of the first shelf.
\<close>

theorem non_object_line_aborts_batch:
  "read_from_pi 1 True [Decoded (JInt 42), Decoded sample_msg] (init_state 0)
     = Raised AttributeError (init_state 0)
   \<and> latest_temp (final_state (read_from_pi 1 True [Decoded sample_msg] (init_state 0)))
     = [JFloat 50, JNull]"
  by (simp add: sample_alone) (simp add: read_from_pi_def read_all_def numeral_eq_Suc process_msg_def)

text \<open>What the code does tolerate: a JSON object of a kind without a branch changes nothing
  and the messages after it are processed as if it were not there; a line that does not
  decode is logged as raw text and the reading goes on.\<close>

lemma process_msg_unknown_kind:
  "\<not> known_kind (case map_of kvs ''type'' of Some t \<Rightarrow> t | None \<Rightarrow> JNull) \<Longrightarrow>
   process_msg now (JDict kvs) st = Done st"
  by (simp add: process_msg_def known_kind_def)

lemma for_each_append:
  "for_each body (xs @ ys) st = and_then (for_each body xs st) (for_each body ys)"
  by (induction xs arbitrary: st) (auto simp: and_then_def split: outcome.splits)

lemma unknown_kind_skipped:
  assumes "\<not> known_kind (case map_of kvs ''type'' of Some t \<Rightarrow> t | None \<Rightarrow> JNull)"
  shows "for_each (process_msg now) (pre @ JDict kvs # post) st = for_each (process_msg now) (pre @ post) st"
  using assms
  by (simp add: for_each_append process_msg_unknown_kind and_then_def split: outcome.splits)

lemma undecodable_logged:
  "read_all_loop now (Suc n) (Undecodable s # ls) msgs st =
     read_all_loop now n ls msgs (log_append (LogRaw now s) st)"
  by simp

lemma read_all_loop_msgs:
  "fst (read_all_loop now n ls msgs st) =
     msgs @ [v. Decoded v \<leftarrow> takeWhile (\<lambda>l. \<forall>e. l \<noteq> ReadFailure e) (take n ls)]"
  by (induction now n ls msgs st rule: read_all_loop.induct) auto

section \<open>Shelf identities out of range\<close>

lemma store_ok_init: "store_ok (init_state t)"
  by (simp add: store_ok_def init_state_def empty_hist_def comp_def)

lemma store_ok_resize: "store_ok (resize_shelves n st)"
  by (simp add: store_ok_def resize_shelves_def empty_hist_def comp_def)

lemma setitem_beyond:
  "int (length xs) < k \<Longrightarrow> list_setitem xs (JInt (k - 1)) v = Inl IndexError"
  by (simp add: list_setitem_JInt)

lemma status_entry_beyond:
  assumes "int (length (latest_temp st)) < k" and "map_of kvs ''shelf'' = Some (JInt k)"
  shows "\<exists>e. status_entry now i (JDict kvs) st = Raised e st"
    and "map_of kvs ''setpoint'' = None \<Longrightarrow> status_entry now i (JDict kvs) st = Raised IndexError st"
  using assms
  by (auto simp: status_entry_def try_val_def setitem_beyond split: sum.splits)

lemma live_temp_beyond:
  assumes "int (length (latest_temp st)) < k" and "map_of kvs ''shelf'' = Some (JInt k)"
  shows "process_live_temp now (JDict kvs) st = Raised IndexError st"
  using assms by (simp add: process_live_temp_def setitem_beyond)

text \<open>
  Claim C2 at the failing input. The code has no bounds check on a shelf identity. With
  two shelves, a sample for shelf 3 raises \<^verbatim>\<open>IndexError\<close> at
  \<^verbatim>\<open>latest_temp[2] = ...\<close>; nothing is logged, the exception leaves the loop of
  \<^verbatim>\<open>read_from_pi\<close>, and the sample for shelf 1 that follows in the batch is not applied,
  although alone it sets the temperature of the first shelf. A \<^verbatim>\<open>STATUS\<close> message whose
  second entry names shelf 3 is left at that entry: the first entry has been applied, the
  maintenance mapping and the time of the last update have not. A sample for shelf 0
  writes the temperature of the last shelf (index \<open>-1\<close>) before the history lookup raises
  \<^verbatim>\<open>KeyError\<close>.
\<close>

theorem out_of_range_identity_aborts_batch:
  "read_from_pi 1 True [Decoded (sample_for 3), Decoded sample_msg] (init_state 0)
     = Raised IndexError (init_state 0)
   \<and> latest_temp (final_state (read_from_pi 1 True [Decoded sample_msg] (init_state 0)))
     = [JFloat 50, JNull]
   \<and> process_msg 1 gap_status (init_state 0)
     = Raised IndexError ((init_state 0)\<lparr>latest_temp := [JFloat 50, JNull],
                                          hist := [(0, [JFloat 50]), (1, [])]\<rparr>)
   \<and> process_msg 1 (sample_for 0) (init_state 0)
       = Raised KeyError ((init_state 0)\<lparr>latest_temp := [JNull, JFloat 50]\<rparr>)"
proof (intro conjI)
  show "read_from_pi 1 True [Decoded (sample_for 3), Decoded sample_msg] (init_state 0)
     = Raised IndexError (init_state 0)"
    by (simp add: read_from_pi_def read_all_def numeral_eq_Suc process_msg_def sample_for_def
        process_live_temp_def init_state_explicit list_setitem_JInt)
  show "latest_temp (final_state (read_from_pi 1 True [Decoded sample_msg] (init_state 0)))
     = [JFloat 50, JNull]"
    by (simp add: sample_alone)
  show "process_msg 1 gap_status (init_state 0)
     = Raised IndexError ((init_state 0)\<lparr>latest_temp := [JFloat 50, JNull],
                                          hist := [(0, [JFloat 50]), (1, [])]\<rparr>)"
    apply (simp add: process_msg_def gap_status_def process_status_def init_state_explicit enumerate_two)
    apply (simp add: status_entry_def list_setitem_JInt shelf_update_JInt hist_append_JInt
      deque_append_short HISTORY_LEN_def status_hours_def status_alarms_def drop_shelf_alarms_def
      drop_shelf_bucket_def Let_def default_shelf_def)
    done
  show "process_msg 1 (sample_for 0) (init_state 0)
       = Raised KeyError ((init_state 0)\<lparr>latest_temp := [JNull, JFloat 50]\<rparr>)"
    by (simp add: process_msg_def sample_for_def process_live_temp_def init_state_explicit
        list_setitem_JInt hist_append_JInt)
qed

text \<open>
  The same for every identity beyond the count. When the identity \<open>k\<close> of a \<^verbatim>\<open>LIVE_TEMP\<close>
  message or of a \<^verbatim>\<open>STATUS\<close> entry is an integer greater than the shelf count, the
  message raises and the state is as it was when the entry was reached; the exception
  is \<^verbatim>\<open>IndexError\<close>, from the first write \<^verbatim>\<open>latest_temp[k - 1] = ...\<close>, unless the
  setpoint field of the \<^verbatim>\<open>STATUS\<close> entry has raised before it.
\<close>

lemma identity_beyond_count:
  assumes ok: "store_ok st" and k: "int (num_shelves st) < k"
    and sh: "map_of kvs ''shelf'' = Some (JInt k)"
  shows "(map_of kvs ''type'' = Some (JStr ''LIVE_TEMP'') \<longrightarrow>
            process_msg now (JDict kvs) st = Raised IndexError st)
       \<and> (\<exists>e. status_entry now i (JDict kvs) st = Raised e st \<and>
              for_each (\<lambda>(i, sh). status_entry now i sh) ((i, JDict kvs) # rest) st = Raised e st)
       \<and> (map_of kvs ''setpoint'' = None \<longrightarrow>
            status_entry now i (JDict kvs) st = Raised IndexError st)
       \<and> (map_of m ''type'' = Some (JStr ''STATUS'') \<and>
          map_of m ''shelves'' = Some (JList (JDict kvs # others)) \<and>
          Suc (length others) = num_shelves st \<longrightarrow>
            (\<exists>e. process_msg now (JDict m) st = Raised e st))"
proof -
  from ok k have len: "int (length (latest_temp st)) < k" by (simp add: store_ok_def)
  have "map_of kvs ''type'' = Some (JStr ''LIVE_TEMP'') \<longrightarrow>
          process_msg now (JDict kvs) st = Raised IndexError st"
    using live_temp_beyond [OF len sh] by (simp add: process_msg_def)
  moreover from status_entry_beyond(1) [OF len sh] obtain e where
    "status_entry now i (JDict kvs) st = Raised e st" by blast
  then have "\<exists>e. status_entry now i (JDict kvs) st = Raised e st \<and>
      for_each (\<lambda>(i, sh). status_entry now i sh) ((i, JDict kvs) # rest) st = Raised e st"
    by simp
  moreover have "map_of kvs ''setpoint'' = None \<longrightarrow>
      status_entry now i (JDict kvs) st = Raised IndexError st"
    using status_entry_beyond(2) [OF len sh] by simp
  moreover from status_entry_beyond(1) [OF len sh] obtain e0 where
    "status_entry now 0 (JDict kvs) st = Raised e0 st" by blast
  then have "map_of m ''type'' = Some (JStr ''STATUS'') \<and>
          map_of m ''shelves'' = Some (JList (JDict kvs # others)) \<and>
          Suc (length others) = num_shelves st \<longrightarrow>
            (\<exists>e. process_msg now (JDict m) st = Raised e st)"
    by (auto simp: process_msg_def process_status_def)
  ultimately show ?thesis by blast
qed

section \<open>What the steps of a message leave unchanged\<close>

lemma try_val_DoneE:
  assumes "try_val r st k = Done st'"
  obtains v where "r = Inr v" and "k v = Done st'"
  using assms by (cases r) (simp_all add: try_val_def)

lemma and_then_DoneE:
  assumes "and_then r k = Done st'"
  obtains s where "r = Done s" and "k s = Done st'"
  using assms by (cases r) (simp_all add: and_then_def)

lemma py_get_Inr: "py_get sh k d = Inr v \<Longrightarrow> v = pick k sh d"
  by (cases sh) (simp_all add: pick_def carried_def)

lemma list_setitem_length: "list_setitem xs i v = Inr ys \<Longrightarrow> length ys = length xs"
  by (auto simp: list_setitem_def Let_def split: json.splits if_splits)

lemma shelf_update_Done:
  assumes "shelf_update idx f st = Done st'"
  obtains xs where "st' = st\<lparr>shelves := xs\<rparr>" and "length xs = length (shelves st)"
  using assms unfolding shelf_update_def
  by (elim try_val_DoneE) (auto dest: list_setitem_length)

lemma map_fst_update: "map_of al k = Some v \<Longrightarrow> map fst (AList.update k w al) = map fst al"
  by (induction al) auto

lemma hist_append_Done:
  assumes "hist_append idx v st = Done st'"
  obtains h where "st' = st\<lparr>hist := h\<rparr>" and "map fst h = map fst (hist st)"
  using assms unfolding hist_append_def
  by (elim try_val_DoneE) (auto split: option.splits dest: map_fst_update)

lemma drop_shelf_bucket_Done:
  assumes "drop_shelf_bucket sev idx st = Done st'"
  obtains arr where "map_of (alarms st) sev = Some arr"
    and "st' = st\<lparr>alarms := AList.update sev (filter (\<lambda>a. \<not> py_eq (shelf a) idx) arr) (alarms st)\<rparr>"
  using assms unfolding drop_shelf_bucket_def by (auto split: option.splits)

lemma drop_shelf_alarms_Done:
  assumes "drop_shelf_alarms idx st = Done st'"
  obtains al where "st' = st\<lparr>alarms := al\<rparr>"
  using assms unfolding drop_shelf_alarms_def
  by (elim and_then_DoneE drop_shelf_bucket_Done) auto

lemma add_alarm_shape:
  "add_alarm now sev sh nm ds ak st =
     st\<lparr>alarms := alarms (add_alarm now sev sh nm ds ak st),
        logs := logs (add_alarm now sev sh nm ds ak st)\<rparr>"
  by (simp add: add_alarm_def Let_def log_append_def)

lemma status_alarm_Done:
  assumes "status_alarm now idx a st = Done st'"
  obtains al lg where "st' = st\<lparr>alarms := al, logs := lg\<rparr>"
proof -
  from assms have "st' = st \<or> (\<exists>sev nm ds ak. st' = add_alarm now sev idx nm ds ak st)"
    unfolding status_alarm_def
    by (elim try_val_DoneE) (auto split: if_splits elim!: try_val_DoneE)
  then show ?thesis
  proof
    assume "st' = st"
    then have "st' = st\<lparr>alarms := alarms st, logs := logs st\<rparr>" by simp
    then show ?thesis by (rule that)
  next
    assume "\<exists>sev nm ds ak. st' = add_alarm now sev idx nm ds ak st"
    then obtain sev nm ds ak where "st' = add_alarm now sev idx nm ds ak st" by blast
    then show ?thesis using add_alarm_shape [of now sev idx nm ds ak st] that by metis
  qed
qed

lemma alarm_state_alarm_Done:
  assumes "alarm_state_alarm now idx a st = Done st'"
  obtains al lg where "st' = st\<lparr>alarms := al, logs := lg\<rparr>"
proof -
  from assms have "st' = st \<or> (\<exists>sev nm ds ak. st' = add_alarm now sev idx nm ds ak st)"
    unfolding alarm_state_alarm_def
    by (elim try_val_DoneE) (auto split: if_splits elim!: try_val_DoneE)
  then show ?thesis
  proof
    assume "st' = st"
    then have "st' = st\<lparr>alarms := alarms st, logs := logs st\<rparr>" by simp
    then show ?thesis by (rule that)
  next
    assume "\<exists>sev nm ds ak. st' = add_alarm now sev idx nm ds ak st"
    then obtain sev nm ds ak where "st' = add_alarm now sev idx nm ds ak st" by blast
    then show ?thesis using add_alarm_shape [of now sev idx nm ds ak st] that by metis
  qed
qed

lemma for_each_alarms_logs:
  assumes step: "\<And>x s s'. body x s = Done s' \<Longrightarrow> \<exists>al lg. s' = s\<lparr>alarms := al, logs := lg\<rparr>"
    and "for_each body xs st = Done st'"
  shows "\<exists>al lg. st' = st\<lparr>alarms := al, logs := lg\<rparr>"
  using assms(2)
proof (induction xs arbitrary: st)
  case Nil
  then have "st' = st\<lparr>alarms := alarms st, logs := logs st\<rparr>" by simp
  then show ?case by blast
next
  case (Cons x xs)
  from Cons.prems obtain s where s: "body x st = Done s" and r: "for_each body xs s = Done st'"
    by (auto elim: and_then_DoneE)
  from step [OF s] obtain al lg where "s = st\<lparr>alarms := al, logs := lg\<rparr>" by blast
  moreover from Cons.IH [OF r] obtain al' lg' where "st' = s\<lparr>alarms := al', logs := lg'\<rparr>" by blast
  ultimately have "st' = st\<lparr>alarms := al', logs := lg'\<rparr>" by simp
  then show ?case by blast
qed

lemma status_alarms_Done:
  assumes "status_alarms now idx sh st = Done st'"
  obtains al lg where "st' = st\<lparr>alarms := al, logs := lg\<rparr>"
proof -
  from assms obtain s1 as where d: "drop_shelf_alarms idx st = Done s1"
    and f: "for_each (status_alarm now idx) as s1 = Done st'"
    unfolding status_alarms_def by (elim and_then_DoneE try_val_DoneE)
  from d obtain al0 where s1: "s1 = st\<lparr>alarms := al0\<rparr>" by (rule drop_shelf_alarms_Done)
  have "\<exists>al lg. st' = s1\<lparr>alarms := al, logs := lg\<rparr>"
    by (rule for_each_alarms_logs [OF _ f]) (erule status_alarm_Done, blast)
  then obtain al lg where "st' = s1\<lparr>alarms := al, logs := lg\<rparr>" by blast
  with s1 have "st' = st\<lparr>alarms := al, logs := lg\<rparr>" by simp
  then show ?thesis by (rule that)
qed

lemma status_hours_Done:
  assumes "status_hours sh st = Done st'"
  shows "st' = st\<lparr>maintenance := entry_hours sh (maintenance st)\<rparr>"
  using assms unfolding status_hours_def Let_def entry_hours_def
  by (elim try_val_DoneE) (auto dest!: py_get_Inr)

lemma status_entry_steps:
  assumes "status_entry now i sh st = Done st'"
  obtains inc idx temp sp up lo on lt s1 s2 s3 s4 s5 s6 where
    "py_get sh ''shelf'' (JInt (int i)) = Inr inc"
    "py_add_int inc (- 1) = Inr idx"
    "list_setitem (latest_temp st) idx temp = Inr lt"
    "shelf_update idx (\<lambda>b. b\<lparr>setpoint := sp\<rparr>) (st\<lparr>latest_temp := lt\<rparr>) = Done s1"
    "shelf_update idx (\<lambda>b. b\<lparr>upper := up\<rparr>) s1 = Done s2"
    "shelf_update idx (\<lambda>b. b\<lparr>lower := lo\<rparr>) s2 = Done s3"
    "shelf_update idx (\<lambda>b. b\<lparr>is_on := on\<rparr>) s3 = Done s4"
    "(if temp \<noteq> JNull then hist_append idx temp s4 else Done s4) = Done s5"
    "status_hours sh s5 = Done s6"
    "status_alarms now idx sh s6 = Done st'"
  using assms unfolding status_entry_def
  by (elim try_val_DoneE and_then_DoneE) blast

lemma status_entry_Done:
  assumes "status_entry now i sh st = Done st'"
  obtains idx lt xs h where
    "entry_idx i sh = Some idx"
    "status_alarms now idx sh
       (st\<lparr>latest_temp := lt, shelves := xs, hist := h,
           maintenance := entry_hours sh (maintenance st)\<rparr>) = Done st'"
    "length lt = length (latest_temp st)"
    "length xs = length (shelves st)"
    "map fst h = map fst (hist st)"
proof -
  from assms obtain inc idx temp sp up lo on lt s1 s2 s3 s4 s5 s6 where
    inc: "py_get sh ''shelf'' (JInt (int i)) = Inr inc" and
    idx: "py_add_int inc (- 1) = Inr idx" and
    lt: "list_setitem (latest_temp st) idx temp = Inr lt" and
    u1: "shelf_update idx (\<lambda>b. b\<lparr>setpoint := sp\<rparr>) (st\<lparr>latest_temp := lt\<rparr>) = Done s1" and
    u2: "shelf_update idx (\<lambda>b. b\<lparr>upper := up\<rparr>) s1 = Done s2" and
    u3: "shelf_update idx (\<lambda>b. b\<lparr>lower := lo\<rparr>) s2 = Done s3" and
    u4: "shelf_update idx (\<lambda>b. b\<lparr>is_on := on\<rparr>) s3 = Done s4" and
    h: "(if temp \<noteq> JNull then hist_append idx temp s4 else Done s4) = Done s5" and
    m: "status_hours sh s5 = Done s6" and
    a: "status_alarms now idx sh s6 = Done st'"
    by (rule status_entry_steps)
  from inc idx have e: "entry_idx i sh = Some idx" by (simp add: entry_idx_def)
  from u1 obtain x1 where s1: "s1 = st\<lparr>latest_temp := lt, shelves := x1\<rparr>"
    and l1: "length x1 = length (shelves st)"
    by (rule shelf_update_Done) simp
  from u2 obtain x2 where s2: "s2 = s1\<lparr>shelves := x2\<rparr>" and l2: "length x2 = length (shelves s1)"
    by (rule shelf_update_Done)
  from u3 obtain x3 where s3: "s3 = s2\<lparr>shelves := x3\<rparr>" and l3: "length x3 = length (shelves s2)"
    by (rule shelf_update_Done)
  from u4 obtain x4 where s4: "s4 = s3\<lparr>shelves := x4\<rparr>" and l4: "length x4 = length (shelves s3)"
    by (rule shelf_update_Done)
  have s4': "s4 = st\<lparr>latest_temp := lt, shelves := x4\<rparr>" and l4': "length x4 = length (shelves st)"
    using s1 s2 s3 s4 l1 l2 l3 l4 by simp_all
  obtain hh where s5: "s5 = s4\<lparr>hist := hh\<rparr>" and lh: "map fst hh = map fst (hist s4)"
  proof (cases "temp = JNull")
    case True
    with h have "s5 = s4\<lparr>hist := hist s4\<rparr>" by simp
    then show ?thesis using that by blast
  next
    case False
    with h have "hist_append idx temp s4 = Done s5" by simp
    then show ?thesis using that by (rule hist_append_Done)
  qed
  from m have s6: "s6 = s5\<lparr>maintenance := entry_hours sh (maintenance s5)\<rparr>"
    by (rule status_hours_Done)
  have "s6 = st\<lparr>latest_temp := lt, shelves := x4, hist := hh,
           maintenance := entry_hours sh (maintenance st)\<rparr>"
    using s4' s5 s6 by simp
  with a have "status_alarms now idx sh
       (st\<lparr>latest_temp := lt, shelves := x4, hist := hh,
           maintenance := entry_hours sh (maintenance st)\<rparr>) = Done st'" by simp
  moreover have "length lt = length (latest_temp st)" using lt by (rule list_setitem_length)
  moreover have "map fst hh = map fst (hist st)" using lh s4' by simp
  ultimately show ?thesis using e l4' that by blast
qed

lemma status_entry_fields:
  assumes "status_entry now i sh st = Done st'"
  shows "maintenance st' = entry_hours sh (maintenance st)"
    and "num_shelves st' = num_shelves st"
    and "length (shelves st') = length (shelves st)"
    and "length (latest_temp st') = length (latest_temp st)"
    and "map fst (hist st') = map fst (hist st)"
    and "last_update_ts st' = last_update_ts st"
proof -
  from assms obtain idx lt xs h where
    a: "status_alarms now idx sh
       (st\<lparr>latest_temp := lt, shelves := xs, hist := h,
           maintenance := entry_hours sh (maintenance st)\<rparr>) = Done st'"
    and l: "length lt = length (latest_temp st)" "length xs = length (shelves st)"
      "map fst h = map fst (hist st)"
    by (rule status_entry_Done)
  from a obtain al lg where
    "st' = st\<lparr>latest_temp := lt, shelves := xs, hist := h,
           maintenance := entry_hours sh (maintenance st), alarms := al, logs := lg\<rparr>"
    by (rule status_alarms_Done) simp
  with l show "maintenance st' = entry_hours sh (maintenance st)"
    and "num_shelves st' = num_shelves st"
    and "length (shelves st') = length (shelves st)"
    and "length (latest_temp st') = length (latest_temp st)"
    and "map fst (hist st') = map fst (hist st)"
    and "last_update_ts st' = last_update_ts st"
    by simp_all
qed

section \<open>Maintenance fields of a \<^verbatim>\<open>STATUS\<close> message\<close>

lemma plain_status_run:
  "process_msg 2 plain_status long_life_state =
    Done
      \<lparr>num_shelves = 2,
         shelves = [default_shelf, default_shelf],
         hist = [(0, [JFloat 50]), (1, [JFloat 51])],
         latest_temp = [JFloat 50, JFloat 51],
         alarms = [(''CRITICAL'', []), (''ERROR'', [])], logs = [],
         maintenance =
           \<lparr>fan_hours = JFloat 12, element_hours = JFloat 0,
              fan_life_hours = JInt 2000, element_life_hours = JInt 3000\<rparr>,
         last_update_ts = 2, last_tick = 0\<rparr>"
  apply (simp add: process_msg_def plain_status_def process_status_def long_life_state_def
     init_state_explicit enumerate_two)
  apply (simp add: status_entry_def list_setitem_JInt shelf_update_JInt hist_append_JInt
      deque_append_short HISTORY_LEN_def status_hours_def status_alarms_def drop_shelf_alarms_def
      drop_shelf_bucket_def Let_def status_maintenance_def default_shelf_def)
  done

lemma entries_fields:
  assumes "for_each (\<lambda>(i, sh). status_entry now i sh) ies st = Done st'"
  shows "maintenance st' = foldl (\<lambda>m sh. entry_hours sh m) (maintenance st) (map snd ies)"
    and "num_shelves st' = num_shelves st"
    and "length (shelves st') = length (shelves st)"
    and "length (latest_temp st') = length (latest_temp st)"
    and "map fst (hist st') = map fst (hist st)"
  using assms
proof (induction ies arbitrary: st)
  case Nil
  { case 1 then show ?case by simp }
  { case 2 then show ?case by simp }
  { case 3 then show ?case by simp }
  { case 4 then show ?case by simp }
  { case 5 then show ?case by simp }
next
  case (Cons x ies)
  obtain i sh where x: "x = (i, sh)" by (cases x)
  { case 1
    then obtain s where s: "status_entry now i sh st = Done s"
      and r: "for_each (\<lambda>(i, sh). status_entry now i sh) ies s = Done st'"
      using x by (auto elim: and_then_DoneE)
    show ?case using Cons.IH(1) [OF r] status_entry_fields(1) [OF s] x by simp }
  { case 2
    then obtain s where s: "status_entry now i sh st = Done s"
      and r: "for_each (\<lambda>(i, sh). status_entry now i sh) ies s = Done st'"
      using x by (auto elim: and_then_DoneE)
    show ?case using Cons.IH(2) [OF r] status_entry_fields(2) [OF s] by simp }
  { case 3
    then obtain s where s: "status_entry now i sh st = Done s"
      and r: "for_each (\<lambda>(i, sh). status_entry now i sh) ies s = Done st'"
      using x by (auto elim: and_then_DoneE)
    show ?case using Cons.IH(3) [OF r] status_entry_fields(3) [OF s] by simp }
  { case 4
    then obtain s where s: "status_entry now i sh st = Done s"
      and r: "for_each (\<lambda>(i, sh). status_entry now i sh) ies s = Done st'"
      using x by (auto elim: and_then_DoneE)
    show ?case using Cons.IH(4) [OF r] status_entry_fields(4) [OF s] by simp }
  { case 5
    then obtain s where s: "status_entry now i sh st = Done s"
      and r: "for_each (\<lambda>(i, sh). status_entry now i sh) ies s = Done st'"
      using x by (auto elim: and_then_DoneE)
    show ?case using Cons.IH(5) [OF r] status_entry_fields(5) [OF s] by simp }
qed

lemma map_snd_enumerate: "map snd (enumerate n xs) = xs"
  by (simp add: enumerate_eq_zip)

lemma status_maintenance_Done:
  assumes "status_maintenance (JDict m) st = Done st'"
  shows "life_ceilings st' =
           (case map_of m ''maintenance'' of
              None \<Rightarrow> (JInt 2000, JInt 3000)
            | Some (JList ms) \<Rightarrow> if 2 \<le> length ms then (ms ! 0, ms ! 1) else life_ceilings st
            | Some _ \<Rightarrow> life_ceilings st)"
    and "fan_hours (maintenance st') = fan_hours (maintenance st)"
    and "element_hours (maintenance st') = element_hours (maintenance st)"
  using assms
  by (auto simp: status_maintenance_def life_ceilings_def split: option.splits json.splits if_splits)

lemma py_get_JDict_pick: "py_get (JDict m) k d = Inr (pick k (JDict m) d)"
  by (simp add: pick_def carried_def split: option.splits)

lemma process_status_Done:
  assumes "process_msg now (JDict m) st = Done st'"
    and "map_of m ''type'' = Some (JStr ''STATUS'')"
  obtains count es s2 s3 where
    "py_len (pick ''shelves'' (JDict m) (JList [])) = Inr count"
    "py_iter (pick ''shelves'' (JDict m) (JList [])) = Inr es"
    "for_each (\<lambda>(i, sh). status_entry now i sh) (enumerate 0 es)
       (if count \<noteq> num_shelves st then resize_shelves count st else st) = Done s2"
    "status_maintenance (JDict m) s2 = Done s3"
    "st' = s3\<lparr>last_update_ts := now\<rparr>"
proof -
  from assms have "process_status now (JDict m) st = Done st'"
    by (simp add: process_msg_def)
  then show ?thesis using that
    unfolding process_status_def Let_def py_get_JDict_pick try_val_simps
    by (elim try_val_DoneE and_then_DoneE) blast
qed

lemma entry_hours_life:
  "fan_life_hours (foldl (\<lambda>m sh. entry_hours sh m) m0 es) = fan_life_hours m0"
  "element_life_hours (foldl (\<lambda>m sh. entry_hours sh m) m0 es) = element_life_hours m0"
  by (induction es arbitrary: m0) (simp_all add: entry_hours_def)

lemma maintenance_resize: "maintenance (resize_shelves n st) = maintenance st"
  by (simp add: resize_shelves_def)

text \<open>
  Claim C9, as the code has it. A \<^verbatim>\<open>STATUS\<close> message that returns leaves the two life
  ceilings at the first two elements of its \<^verbatim>\<open>maintenance\<close> list when that is a list of
  two or more, at the defaults 2000 and 3000 of \<^verbatim>\<open>msg.get("maintenance", [2000, 3000])\<close>
  when the message has no such field, and at their prior values only when the field is
  there and is not a list of at least two.
\<close>

theorem status_life_ceilings:
  assumes "process_msg now (JDict m) st = Done st'"
    and "map_of m ''type'' = Some (JStr ''STATUS'')"
  shows "life_ceilings st' =
           (case map_of m ''maintenance'' of
              None \<Rightarrow> (JInt 2000, JInt 3000)
            | Some (JList ms) \<Rightarrow> if 2 \<le> length ms then (ms ! 0, ms ! 1) else life_ceilings st
            | Some _ \<Rightarrow> life_ceilings st)"
proof -
  from assms obtain count es s2 s3 where
    f: "for_each (\<lambda>(i, sh). status_entry now i sh) (enumerate 0 es)
       (if count \<noteq> num_shelves st then resize_shelves count st else st) = Done s2"
    and m: "status_maintenance (JDict m) s2 = Done s3"
    and e: "st' = s3\<lparr>last_update_ts := now\<rparr>"
    by (rule process_status_Done)
  from entries_fields(1) [OF f] have "life_ceilings s2 = life_ceilings st"
    by (simp add: life_ceilings_def entry_hours_life maintenance_resize)
  moreover from e have "life_ceilings st' = life_ceilings s3"
    by (simp add: life_ceilings_def)
  ultimately show ?thesis using status_maintenance_Done(1) [OF m]
    by (simp split: option.splits json.splits)
qed

text \<open>
  Claim C9 as stated fails: the message carries no \<^verbatim>\<open>maintenance\<close> field, the ceilings
  were 5000 and 6000, and after it they are 2000 and 3000.
\<close>

theorem status_without_ceilings_counterexample:
  "carried ''maintenance'' plain_status = None
   \<and> life_ceilings long_life_state = (JInt 5000, JInt 6000)
   \<and> returned (process_msg 2 plain_status long_life_state)
   \<and> life_ceilings (final_state (process_msg 2 plain_status long_life_state)) = (JInt 2000, JInt 3000)"
  by (simp add: plain_status_run life_ceilings_def)
     (simp add: long_life_state_def carried_def plain_status_def)

text \<open>Claim C9 at that message and state.\<close>

theorem status_life_ceilings_witness:
  "returned (process_msg 2 plain_status long_life_state)
   \<and> life_ceilings (final_state (process_msg 2 plain_status long_life_state)) = (JInt 2000, JInt 3000)"
proof -
  have d: "process_msg 2 plain_status long_life_state
      = Done (final_state (process_msg 2 plain_status long_life_state))"
    by (simp add: plain_status_run)
  have r: "returned (process_msg 2 plain_status long_life_state)"
    by (simp add: plain_status_run)
  show ?thesis
    using r status_life_ceilings [OF d [unfolded plain_status_def]]
    by (simp add: plain_status_def)
qed

lemma fan_hours_fold:
  "fan_hours (foldl (\<lambda>m sh. entry_hours sh m) m0 es)
     = foldl (\<lambda>v sh. pick ''fanHours'' sh v) (fan_hours m0) es"
  "element_hours (foldl (\<lambda>m sh. entry_hours sh m) m0 es)
     = foldl (\<lambda>v sh. pick ''elementHours'' sh v) (element_hours m0) es"
  by (induction es arbitrary: m0) (simp_all add: entry_hours_def)

lemma fold_pick_none:
  "\<forall>sh\<in>set es. carried k sh = None \<Longrightarrow> foldl (\<lambda>v sh. pick k sh v) v0 es = v0"
  by (induction es arbitrary: v0) (simp_all add: pick_def)

lemma fold_pick_last:
  "carried k sh = Some v \<Longrightarrow> \<forall>x\<in>set post. carried k x = None \<Longrightarrow>
   foldl (\<lambda>v sh. pick k sh v) v0 (pre @ sh # post) = v"
  by (simp add: fold_pick_none) (simp add: pick_def)

lemma fold_pick_index:
  assumes "j < length es" and "carried k (es ! j) = Some v"
    and "\<forall>l. j < l \<and> l < length es \<longrightarrow> carried k (es ! l) = None"
  shows "foldl (\<lambda>v sh. pick k sh v) v0 es = v"
proof -
  have es: "es = take j es @ es ! j # drop (Suc j) es"
    using assms(1) by (rule id_take_nth_drop)
  have "\<forall>x\<in>set (drop (Suc j) es). carried k x = None"
  proof
    fix x assume "x \<in> set (drop (Suc j) es)"
    then obtain n where "n < length (drop (Suc j) es)" and "x = drop (Suc j) es ! n"
      by (auto simp: in_set_conv_nth)
    then have "x = es ! (Suc j + n)" and "Suc j + n < length es" by auto
    with assms(3) show "carried k x = None" by simp
  qed
  from fold_pick_last [OF assms(2) this, of v0 "take j es"] es show ?thesis by simp
qed

lemma fold_pick_absent:
  assumes "\<forall>j<length es. carried k (es ! j) = None"
  shows "foldl (\<lambda>v sh. pick k sh v) v0 es = v0"
  using assms by (intro fold_pick_none) (auto simp: in_set_conv_nth)

lemma status_hours_fold:
  assumes "process_msg now (JDict m) st = Done st'"
    and "map_of m ''type'' = Some (JStr ''STATUS'')"
    and "map_of m ''shelves'' = Some (JList es)"
  shows "fan_hours (maintenance st') = foldl (\<lambda>v sh. pick ''fanHours'' sh v) (fan_hours (maintenance st)) es"
    and "element_hours (maintenance st')
          = foldl (\<lambda>v sh. pick ''elementHours'' sh v) (element_hours (maintenance st)) es"
proof -
  from assms(1,2) obtain count es' s2 s3 where
    i: "py_iter (pick ''shelves'' (JDict m) (JList [])) = Inr es'"
    and f: "for_each (\<lambda>(i, sh). status_entry now i sh) (enumerate 0 es')
       (if count \<noteq> num_shelves st then resize_shelves count st else st) = Done s2"
    and m: "status_maintenance (JDict m) s2 = Done s3"
    and e: "st' = s3\<lparr>last_update_ts := now\<rparr>"
    by (rule process_status_Done)
  from i assms(3) have es: "es' = es" by (simp add: pick_def carried_def)
  from entries_fields(1) [OF f]
  have s2: "maintenance s2 = foldl (\<lambda>m sh. entry_hours sh m) (maintenance st) es"
    by (simp add: map_snd_enumerate es maintenance_resize)
  show "fan_hours (maintenance st') = foldl (\<lambda>v sh. pick ''fanHours'' sh v) (fan_hours (maintenance st)) es"
    using status_maintenance_Done(2) [OF m] e s2 by (simp add: fan_hours_fold)
  show "element_hours (maintenance st')
          = foldl (\<lambda>v sh. pick ''elementHours'' sh v) (element_hours (maintenance st)) es"
    using status_maintenance_Done(3) [OF m] e s2 by (simp add: fan_hours_fold)
qed

text \<open>
  Claim C10. After a \<^verbatim>\<open>STATUS\<close> message that returns, the fan hours of the one
  maintenance record are the \<^verbatim>\<open>fanHours\<close> of the last entry that carries the field, and
  the hours held before when no entry carries it; an entry without the field, after
  one with it, leaves the stored value in place. The same holds for
  \<^verbatim>\<open>elementHours\<close>.
\<close>

theorem status_hours_last_entry:
  assumes "process_msg now (JDict m) st = Done st'"
    and "map_of m ''type'' = Some (JStr ''STATUS'')"
    and "map_of m ''shelves'' = Some (JList es)"
  shows "(\<forall>j v. j < length es \<and> carried ''fanHours'' (es ! j) = Some v \<and>
             (\<forall>l. j < l \<and> l < length es \<longrightarrow> carried ''fanHours'' (es ! l) = None)
           \<longrightarrow> fan_hours (maintenance st') = v)
       \<and> ((\<forall>j<length es. carried ''fanHours'' (es ! j) = None)
           \<longrightarrow> fan_hours (maintenance st') = fan_hours (maintenance st))
       \<and> (\<forall>j v. j < length es \<and> carried ''elementHours'' (es ! j) = Some v \<and>
             (\<forall>l. j < l \<and> l < length es \<longrightarrow> carried ''elementHours'' (es ! l) = None)
           \<longrightarrow> element_hours (maintenance st') = v)
       \<and> ((\<forall>j<length es. carried ''elementHours'' (es ! j) = None)
           \<longrightarrow> element_hours (maintenance st') = element_hours (maintenance st))"
  using status_hours_fold [OF assms]
  by (auto simp: fold_pick_index fold_pick_absent)

lemma hours_status_run:
  "process_msg 2 hours_status (init_state 0) =
    Done ((init_state 0)\<lparr>
         maintenance :=
           \<lparr>fan_hours = JFloat 15, element_hours = JFloat 7,
              fan_life_hours = JInt 2000, element_life_hours = JInt 3000\<rparr>,
         last_update_ts := 2\<rparr>)"
  apply (simp add: process_msg_def hours_status_def process_status_def
     init_state_explicit enumerate_two)
  apply (simp add: status_entry_def list_setitem_JInt shelf_update_JInt hist_append_JInt
      deque_append_short HISTORY_LEN_def status_hours_def status_alarms_def drop_shelf_alarms_def
      drop_shelf_bucket_def Let_def status_maintenance_def default_shelf_def)
  done

text \<open>Claim C10 at a message whose first entry carries both fields and whose second
  carries the fan hours only: the fan hours are those of the second entry, the element
  hours those of the first.\<close>

theorem status_hours_last_entry_witness:
  "returned (process_msg 2 hours_status (init_state 0))
   \<and> fan_hours (maintenance (final_state (process_msg 2 hours_status (init_state 0)))) = JFloat 15
   \<and> element_hours (maintenance (final_state (process_msg 2 hours_status (init_state 0)))) = JFloat 7"
proof -
  define es where "es = [JDict [(''shelf'', JInt 1), (''fanHours'', JFloat 12), (''elementHours'', JFloat 7)],
              JDict [(''shelf'', JInt 2), (''fanHours'', JFloat 15)]]"
  define m where "m = [(''type'', JStr ''STATUS''), (''shelves'', JList es)]"
  define st' where "st' = final_state (process_msg 2 hours_status (init_state 0))"
  have h: "hours_status = JDict m" by (simp add: hours_status_def m_def es_def)
  have d: "process_msg 2 (JDict m) (init_state 0) = Done st'"
    and r: "returned (process_msg 2 hours_status (init_state 0))"
    unfolding st'_def h [symmetric] by (simp_all add: hours_status_run)
  have ty: "map_of m ''type'' = Some (JStr ''STATUS'')" and sh: "map_of m ''shelves'' = Some (JList es)"
    by (simp_all add: m_def)
  note t = status_hours_last_entry [OF d ty sh]
  have l: "length es = 2" by (simp add: es_def)
  have f1: "carried ''fanHours'' (es ! 1) = Some (JFloat 15)"
    and e0: "carried ''elementHours'' (es ! 0) = Some (JFloat 7)"
    and e1: "carried ''elementHours'' (es ! 1) = None"
    by (simp_all add: es_def carried_def)
  have "(1::nat) < length es \<and> carried ''fanHours'' (es ! 1) = Some (JFloat 15) \<and>
      (\<forall>l. 1 < l \<and> l < length es \<longrightarrow> carried ''fanHours'' (es ! l) = None)"
    using l f1 by auto
  with t have f: "fan_hours (maintenance st') = JFloat 15" by blast
  have "\<forall>l. 0 < l \<and> l < length es \<longrightarrow> carried ''elementHours'' (es ! l) = None"
  proof (intro allI impI)
    fix k assume "0 < k \<and> k < length es"
    with l have "k = 1" by simp
    with e1 show "carried ''elementHours'' (es ! k) = None" by simp
  qed
  with l e0 have "(0::nat) < length es \<and> carried ''elementHours'' (es ! 0) = Some (JFloat 7) \<and>
      (\<forall>l. 0 < l \<and> l < length es \<longrightarrow> carried ''elementHours'' (es ! l) = None)"
    by simp
  with t have e: "element_hours (maintenance st') = JFloat 7" by blast
  from r f e show ?thesis by (simp add: st'_def)
qed

section \<open>The demo generator: severity exclusion\<close>

lemma bucket_clear_alarm:
  "bucket (final_state (clear_alarm now sev sh nm st)) sev' =
     (if sev' = sev then filter (\<lambda>a. \<not> alarm_matches sh nm a) (bucket st sev) else bucket st sev')"
proof (cases "map_of (alarms st) sev")
  case None
  then show ?thesis by (simp add: clear_alarm_def bucket_def)
next
  case (Some arr)
  show ?thesis
  proof (cases "list_ex (alarm_matches sh nm) arr")
    case True
    with Some show ?thesis
      by (simp add: clear_alarm_def bucket_log_append bucket_update) (simp add: bucket_def)
  next
    case False
    then have "filter (\<lambda>a. \<not> alarm_matches sh nm a) arr = arr"
      by (simp add: list_ex_iff)
    with Some False show ?thesis by (simp add: clear_alarm_def bucket_def)
  qed
qed

lemma has_alarm_add:
  "has_alarm (add_alarm now sev (JInt (int i)) (JStr nm) ds ak st) sev' j nm' =
     (has_alarm st sev' j nm' \<or> (sev' = sev \<and> j = i \<and> nm' = nm))"
proof (cases "find_alarm st sev (JInt (int i)) (JStr nm)")
  case None
  then show ?thesis
    by (auto simp: has_alarm_def bucket_add_alarm alarm_matches_def)
next
  case (Some a)
  then have "list_ex (alarm_matches (JInt (int i)) (JStr nm)) (bucket st sev)"
    by (auto simp: find_alarm_def list_ex_iff find_Some_iff)
  with Some show ?thesis by (auto simp: has_alarm_def bucket_add_alarm)
qed

lemma alarm_matches_JInt_JStr:
  "alarm_matches (JInt i) (JStr nm) a \<Longrightarrow> alarm_matches (JInt j) (JStr nm') a \<longleftrightarrow> i = j \<and> nm = nm'"
  by (auto simp: alarm_matches_def py_eq_def)

lemma has_alarm_clear:
  "has_alarm (final_state (clear_alarm now sev (JInt (int i)) (JStr nm) st)) sev' j nm' =
     (has_alarm st sev' j nm' \<and> \<not> (sev' = sev \<and> j = i \<and> nm' = nm))"
  by (auto simp: has_alarm_def bucket_clear_alarm list_ex_iff alarm_matches_JInt_JStr)

lemma final_state_and_then:
  "final_state (and_then r k) = (case r of Done s \<Rightarrow> final_state (k s) | Raised e s \<Rightarrow> s)"
  by (cases r) simp_all

lemma clear_alarm_missing:
  "clear_alarm now sev sh nm st = Raised e s \<Longrightarrow> s = st \<and> bucket st sev = []"
  by (auto simp: clear_alarm_def bucket_def split: option.splits if_splits)

lemma clear_alarm_returns:
  "map_of (alarms st) sev \<noteq> None \<Longrightarrow> \<exists>s. clear_alarm now sev sh nm st = Done s"
  by (auto simp: clear_alarm_def)

lemma has_alarm_absent_bucket: "map_of (alarms st) sev = None \<Longrightarrow> \<not> has_alarm st sev j nm"
  by (simp add: has_alarm_def bucket_def)

lemma has_alarm_clear_both:
  "has_alarm (final_state (and_then (clear_alarm now ''ERROR'' (JInt (int i)) (JStr ''OVERTEMP'') st)
          (clear_alarm now ''CRITICAL'' (JInt (int i)) (JStr ''OVERHEAT'')))) sev j nm
      = (has_alarm st sev j nm \<and> \<not> (j = i \<and> sev = ''ERROR'' \<and> nm = ''OVERTEMP'')
             \<and> (map_of (alarms st) ''ERROR'' \<noteq> None \<longrightarrow>
                  \<not> (j = i \<and> sev = ''CRITICAL'' \<and> nm = ''OVERHEAT'')))"
proof (cases "map_of (alarms st) ''ERROR'' = None")
  case True
  then have "clear_alarm now ''ERROR'' (JInt (int i)) (JStr ''OVERTEMP'') st = Raised KeyError st"
    by (simp add: clear_alarm_def)
  then show ?thesis using True has_alarm_absent_bucket [OF True] by auto
next
  case False
  then obtain s where "clear_alarm now ''ERROR'' (JInt (int i)) (JStr ''OVERTEMP'') st = Done s"
    using clear_alarm_returns by blast
  then have "final_state (and_then (clear_alarm now ''ERROR'' (JInt (int i)) (JStr ''OVERTEMP'') st)
          (clear_alarm now ''CRITICAL'' (JInt (int i)) (JStr ''OVERHEAT'')))
     = final_state (clear_alarm now ''CRITICAL'' (JInt (int i)) (JStr ''OVERHEAT'')
          (final_state (clear_alarm now ''ERROR'' (JInt (int i)) (JStr ''OVERTEMP'') st)))"
    by simp
  then show ?thesis using False by (auto simp: has_alarm_clear)
qed

lemma has_alarm_heuristic:
  "has_alarm (final_state (demo_alarm_heuristic now fmt i cur up st)) sev j nm =
     (if cur > up + 6 then
        (has_alarm st sev j nm \<or> (j = i \<and> sev = ''CRITICAL'' \<and> nm = ''OVERHEAT''))
          \<and> \<not> (j = i \<and> sev = ''ERROR'' \<and> nm = ''OVERTEMP'')
      else if cur > up + 3 then
        (has_alarm st sev j nm \<or> (j = i \<and> sev = ''ERROR'' \<and> nm = ''OVERTEMP''))
          \<and> \<not> (j = i \<and> sev = ''CRITICAL'' \<and> nm = ''OVERHEAT'')
      else has_alarm st sev j nm \<and> \<not> (j = i \<and> sev = ''ERROR'' \<and> nm = ''OVERTEMP'')
             \<and> (map_of (alarms st) ''ERROR'' \<noteq> None \<longrightarrow>
                  \<not> (j = i \<and> sev = ''CRITICAL'' \<and> nm = ''OVERHEAT'')))"
  unfolding demo_alarm_heuristic_def
  by (auto simp: has_alarm_clear has_alarm_add has_alarm_clear_both)

lemma heuristic_exclusive: "\<not> both_hot (final_state (demo_alarm_heuristic now fmt i cur up st)) i"
  by (auto simp: both_hot_def has_alarm_heuristic dest: has_alarm_absent_bucket)

lemma heuristic_other_shelf:
  "j \<noteq> i \<Longrightarrow> both_hot (final_state (demo_alarm_heuristic now fmt i cur up st)) j = both_hot st j"
  by (simp add: both_hot_def has_alarm_heuristic)

lemma both_hot_alarms: "alarms s = alarms st \<Longrightarrow> both_hot s j = both_hot st j"
  by (simp add: both_hot_def has_alarm_def bucket_def)

lemma num_shelves_add_alarm: "num_shelves (add_alarm now sev sh nm ds ak st) = num_shelves st"
  by (subst add_alarm_shape) simp

lemma num_shelves_clear_alarm: "num_shelves (final_state (clear_alarm now sev sh nm st)) = num_shelves st"
  by (simp add: clear_alarm_def log_append_def split: option.splits)

lemma num_shelves_heuristic:
  "num_shelves (final_state (demo_alarm_heuristic now fmt i cur up st)) = num_shelves st"
  unfolding demo_alarm_heuristic_def
  by (auto simp: num_shelves_clear_alarm num_shelves_add_alarm final_state_and_then
      split: outcome.splits)
     (metis final_state.simps num_shelves_clear_alarm)+

lemma demo_shelf_Done:
  assumes "demo_shelf now fmt rnd i st = Done st'"
  obtains s1 cur up where "alarms s1 = alarms st" and "num_shelves s1 = num_shelves st"
    and "demo_alarm_heuristic now fmt i cur up s1 = Done st'"
proof -
  have n: "and_then (clear_alarm now ''ERROR'' (JInt (int i)) (JStr ''OVERTEMP'') s)
             (clear_alarm now ''CRITICAL'' (JInt (int i)) (JStr ''OVERHEAT''))
           = demo_alarm_heuristic now fmt i c c s" for s c
    by (simp add: demo_alarm_heuristic_def)
  from assms have "\<exists>(b :: shelf_state) lts s1 cur.
      hist_append (JInt (int i)) (JFloat cur) (st\<lparr>latest_temp := lts\<rparr>) = Done s1 \<and>
      (case py_num (upper b) of
               None \<Rightarrow>
                 if upper b = JNaN
                 then and_then (clear_alarm now ''ERROR'' (JInt (int i)) (JStr ''OVERTEMP'') s1)
                        (clear_alarm now ''CRITICAL'' (JInt (int i)) (JStr ''OVERHEAT''))
                 else Raised TypeError s1
             | Some up \<Rightarrow> demo_alarm_heuristic now fmt i cur up s1) = Done st'"
    unfolding demo_shelf_def Let_def
    by (elim try_val_DoneE and_then_DoneE) (intro exI conjI, assumption+)
  then obtain b :: shelf_state and lts s1 cur where
    h: "hist_append (JInt (int i)) (JFloat cur) (st\<lparr>latest_temp := lts\<rparr>) = Done s1"
    and c: "(case py_num (upper b) of
               None \<Rightarrow>
                 if upper b = JNaN
                 then and_then (clear_alarm now ''ERROR'' (JInt (int i)) (JStr ''OVERTEMP'') s1)
                        (clear_alarm now ''CRITICAL'' (JInt (int i)) (JStr ''OVERHEAT''))
                 else Raised TypeError s1
             | Some up \<Rightarrow> demo_alarm_heuristic now fmt i cur up s1) = Done st'"
    by blast
  from c obtain up where d: "demo_alarm_heuristic now fmt i cur up s1 = Done st'"
    using n [of s1 cur] by (auto split: option.splits if_splits)
  from h obtain hh where "s1 = st\<lparr>latest_temp := lts, hist := hh\<rparr>"
    by (rule hist_append_Done) simp
  then have "alarms s1 = alarms st" and "num_shelves s1 = num_shelves st" by simp_all
  then show ?thesis using d by (rule that)
qed

lemma demo_shelf_effect:
  assumes "demo_shelf now fmt rnd i st = Done st'"
  shows "\<not> both_hot st' i"
    and "j \<noteq> i \<Longrightarrow> both_hot st' j = both_hot st j"
    and "num_shelves st' = num_shelves st"
proof -
  from assms obtain s1 cur up where a: "alarms s1 = alarms st" and n: "num_shelves s1 = num_shelves st"
    and d: "demo_alarm_heuristic now fmt i cur up s1 = Done st'"
    by (rule demo_shelf_Done)
  from d have f: "st' = final_state (demo_alarm_heuristic now fmt i cur up s1)" by simp
  show "\<not> both_hot st' i" unfolding f by (rule heuristic_exclusive)
  show "j \<noteq> i \<Longrightarrow> both_hot st' j = both_hot st j"
    unfolding f using both_hot_alarms [OF a] by (simp add: heuristic_other_shelf)
  show "num_shelves st' = num_shelves st" unfolding f using n by (simp add: num_shelves_heuristic)
qed

lemma demo_loop_effect:
  assumes "for_each (demo_shelf now fmt rnd) ix st = Done st'" and "distinct ix"
  shows "(\<forall>i\<in>set ix. \<not> both_hot st' i) \<and> (\<forall>j. j \<notin> set ix \<longrightarrow> both_hot st' j = both_hot st j)
         \<and> num_shelves st' = num_shelves st"
  using assms
proof (induction ix arbitrary: st)
  case Nil
  then show ?case by simp
next
  case (Cons i ix)
  from Cons.prems(1) obtain s where s: "demo_shelf now fmt rnd i st = Done s"
    and r: "for_each (demo_shelf now fmt rnd) ix s = Done st'"
    by (auto elim: and_then_DoneE)
  from Cons.prems(2) have i: "i \<notin> set ix" and dx: "distinct ix" by simp_all
  note ih = Cons.IH [OF r dx]
  note e = demo_shelf_effect [OF s]
  from ih i e(1) have "\<not> both_hot st' i" by simp
  moreover from ih have "\<forall>k\<in>set ix. \<not> both_hot st' k" by simp
  moreover have "\<forall>j. j \<notin> set (i # ix) \<longrightarrow> both_hot st' j = both_hot st j"
    using ih e(2) by simp
  moreover have "num_shelves st' = num_shelves st" using ih e(3) by simp
  ultimately show ?case by simp
qed

lemma accrue_hours_Done:
  assumes "accrue_hours d st = Done st'"
  shows "alarms st' = alarms st"
  using assms unfolding accrue_hours_def Let_def
  by (elim try_val_DoneE) auto

lemma demo_tick_exclusive:
  assumes "demo_tick now fmt rnd st = Done st'" and "i < num_shelves st"
  shows "\<not> both_hot st' i"
proof -
  from assms(1) obtain s1 s2 where
    l: "for_each (demo_shelf now fmt rnd) [0..<num_shelves st] st = Done s1"
    and a: "(if list_ex (\<lambda>sh. py_truthy (is_on sh)) (shelves s1)
               then accrue_hours ((now - last_tick s1) / 3600) s1 else Done s1) = Done s2"
    and e: "st' = s2\<lparr>last_tick := now, last_update_ts := now\<rparr>"
    unfolding demo_tick_def by (elim and_then_DoneE) auto
  from demo_loop_effect [OF l] assms(2) have "\<not> both_hot s1 i" by simp
  moreover from a have "alarms s2 = alarms s1"
    by (auto split: if_splits dest: accrue_hours_Done)
  moreover from e have "alarms st' = alarms s2" by simp
  ultimately show ?thesis using both_hot_alarms [of st' s1 i] by simp
qed

lemma add_alarm_new:
  "find_alarm st sev sh nm = None \<Longrightarrow>
   add_alarm now sev sh nm ds ak st =
     st\<lparr>alarms := AList.update sev (bucket st sev @ [\<lparr>shelf = sh, name = nm, desc = ds, ts = now, ack = ak\<rparr>])
                   (setdefault sev [] (alarms st)),
        logs := deque_append LOG_LIMIT (logs st) (LogAlarm now sev sh nm)\<rparr>"
  by (simp add: add_alarm_def Let_def find_alarm_setdefault bucket_setdefault log_append_def)

lemma returned_clear_both:
  "returned (and_then (clear_alarm now ''ERROR'' sh nm st) k) \<Longrightarrow> map_of (alarms st) ''ERROR'' \<noteq> None"
  by (auto simp: clear_alarm_def split: option.splits)

text \<open>
  Claim C8. Whatever state the alarm heuristic of the demo tick leaves behind for a
  shelf, the registry does not hold both CRITICAL "OVERHEAT" and ERROR "OVERTEMP" for
  that shelf: above the upper bound plus 6 the overheat alarm is there and the
  overtemperature alarm is not, above the upper bound plus 3 it is the other way round,
  and below both thresholds neither is there. After a whole tick that returns, no shelf
  carries both.
\<close>

theorem demo_severity_exclusive:
  "\<not> both_hot (final_state (demo_alarm_heuristic now fmt i cur up st)) i
   \<and> (up + 6 < cur \<longrightarrow>
        has_alarm (final_state (demo_alarm_heuristic now fmt i cur up st)) ''CRITICAL'' i ''OVERHEAT'' \<and>
        \<not> has_alarm (final_state (demo_alarm_heuristic now fmt i cur up st)) ''ERROR'' i ''OVERTEMP'')
   \<and> (\<not> up + 6 < cur \<and> up + 3 < cur \<longrightarrow>
        has_alarm (final_state (demo_alarm_heuristic now fmt i cur up st)) ''ERROR'' i ''OVERTEMP'' \<and>
        \<not> has_alarm (final_state (demo_alarm_heuristic now fmt i cur up st)) ''CRITICAL'' i ''OVERHEAT'')
   \<and> (\<not> up + 3 < cur \<and> returned (demo_alarm_heuristic now fmt i cur up st) \<longrightarrow>
        \<not> has_alarm (final_state (demo_alarm_heuristic now fmt i cur up st)) ''ERROR'' i ''OVERTEMP'' \<and>
        \<not> has_alarm (final_state (demo_alarm_heuristic now fmt i cur up st)) ''CRITICAL'' i ''OVERHEAT'')
   \<and> (demo_tick now fmt rnd st0 = Done st' \<longrightarrow> (\<forall>k<num_shelves st0. \<not> both_hot st' k))"
proof (intro conjI impI allI)
  show "\<not> both_hot (final_state (demo_alarm_heuristic now fmt i cur up st)) i"
    by (rule heuristic_exclusive)
next
  assume "up + 6 < cur"
  then show "has_alarm (final_state (demo_alarm_heuristic now fmt i cur up st)) ''CRITICAL'' i ''OVERHEAT''"
    and "\<not> has_alarm (final_state (demo_alarm_heuristic now fmt i cur up st)) ''ERROR'' i ''OVERTEMP''"
    by (simp_all add: has_alarm_heuristic)
next
  assume "\<not> up + 6 < cur \<and> up + 3 < cur"
  then show "has_alarm (final_state (demo_alarm_heuristic now fmt i cur up st)) ''ERROR'' i ''OVERTEMP''"
    and "\<not> has_alarm (final_state (demo_alarm_heuristic now fmt i cur up st)) ''CRITICAL'' i ''OVERHEAT''"
    by (simp_all add: has_alarm_heuristic)
next
  assume a: "\<not> up + 3 < cur \<and> returned (demo_alarm_heuristic now fmt i cur up st)"
  then have "map_of (alarms st) ''ERROR'' \<noteq> None"
    by (auto simp: demo_alarm_heuristic_def dest: returned_clear_both split: if_splits)
  with a show "\<not> has_alarm (final_state (demo_alarm_heuristic now fmt i cur up st)) ''ERROR'' i ''OVERTEMP''"
    and "\<not> has_alarm (final_state (demo_alarm_heuristic now fmt i cur up st)) ''CRITICAL'' i ''OVERHEAT''"
    by (simp_all add: has_alarm_heuristic)
next
  fix k assume "demo_tick now fmt rnd st0 = Done st'" and "k < num_shelves st0"
  then show "\<not> both_hot st' k" by (rule demo_tick_exclusive)
qed

lemmas demo_run =
  demo_tick_def demo_shelf_def demo_alarm_heuristic_def
  list_getitem_JInt list_setitem_JInt hist_append_JInt deque_append_short HISTORY_LEN_def
  py_add_float_def clamp_def MIN_TEMP_def MAX_TEMP_def default_shelf_def
  add_alarm_new find_alarm_def bucket_def setdefault_def clear_alarm_def
  accrue_hours_def LOG_LIMIT_def alarm_matches_def log_append_def

lemma hot_tick_run:
  "demo_tick 3600 (\<lambda>sep x y. sep) (\<lambda>i. 0) hot_state =
    Done
      \<lparr>num_shelves = 2,
         shelves = [default_shelf, default_shelf],
         hist = [(0, [JFloat 90]), (1, [JFloat 50])],
         latest_temp = [JFloat 90, JFloat 50],
         alarms =
           [(''CRITICAL'',
             [\<lparr>shelf = JInt 0, name = JStr ''OVERHEAT'', desc = JStr ''>>'',
                 ts = 3600, ack = JBool False\<rparr>]),
            (''ERROR'', [])],
         logs = [LogAlarm 3600 ''CRITICAL'' (JInt 0) (JStr ''OVERHEAT'')],
         maintenance =
           \<lparr>fan_hours = JFloat 1, element_hours = JFloat 1,
              fan_life_hours = JFloat 2000,
              element_life_hours = JFloat 3000\<rparr>,
         last_update_ts = 3600, last_tick = 3600\<rparr>"
  by (simp add: hot_state_def init_state_explicit upt_rec demo_run)

lemma cool_heuristic_returns:
  "returned (demo_alarm_heuristic 3600 (\<lambda>sep x y. sep) 0 50 77 (init_state 0))"
  by (simp add: init_state_explicit demo_run)

text \<open>Claim C8 at a tick over two shelves, the first of them overheated, and at the three
  cases of the heuristic on the initial state.\<close>

theorem demo_severity_exclusive_witness:
  "returned (demo_tick 3600 (\<lambda>sep x y. sep) (\<lambda>i. 0) hot_state)
   \<and> \<not> both_hot (final_state (demo_tick 3600 (\<lambda>sep x y. sep) (\<lambda>i. 0) hot_state)) 0
   \<and> \<not> both_hot (final_state (demo_tick 3600 (\<lambda>sep x y. sep) (\<lambda>i. 0) hot_state)) 1
   \<and> has_alarm (final_state (demo_alarm_heuristic 3600 (\<lambda>sep x y. sep) 0 90 77 (init_state 0)))
         ''CRITICAL'' 0 ''OVERHEAT''
   \<and> has_alarm (final_state (demo_alarm_heuristic 3600 (\<lambda>sep x y. sep) 0 81 77 (init_state 0)))
         ''ERROR'' 0 ''OVERTEMP''
   \<and> \<not> has_alarm (final_state (demo_alarm_heuristic 3600 (\<lambda>sep x y. sep) 0 50 77 (init_state 0)))
         ''ERROR'' 0 ''OVERTEMP''"
proof -
  let ?f = "\<lambda>(sep :: string) (x :: rat) (y :: rat). sep"
  let ?t = "demo_tick 3600 ?f (\<lambda>i. 0) hot_state"
  have d: "?t = Done (final_state ?t)" and r: "returned ?t"
    by (simp_all add: hot_tick_run)
  have n: "num_shelves hot_state = 2"
    by (simp add: hot_state_def init_state_explicit)
  from demo_severity_exclusive [of 3600 ?f 0 90 77 "init_state 0" "\<lambda>i. 0" hot_state "final_state ?t"] d n
  have t: "\<forall>k<2. \<not> both_hot (final_state ?t) k"
    and h1: "has_alarm (final_state (demo_alarm_heuristic 3600 ?f 0 90 77 (init_state 0))) ''CRITICAL'' 0 ''OVERHEAT''"
    by simp_all
  from demo_severity_exclusive [of 3600 ?f 0 81 77 "init_state 0" "\<lambda>i. 0" hot_state "final_state ?t"]
  have h2: "has_alarm (final_state (demo_alarm_heuristic 3600 ?f 0 81 77 (init_state 0))) ''ERROR'' 0 ''OVERTEMP''"
    by simp
  from demo_severity_exclusive [of 3600 ?f 0 50 77 "init_state 0" "\<lambda>i. 0" hot_state "final_state ?t"]
    cool_heuristic_returns
  have h3: "\<not> has_alarm (final_state (demo_alarm_heuristic 3600 ?f 0 50 77 (init_state 0))) ''ERROR'' 0 ''OVERTEMP''"
    by simp
  from t have "\<not> both_hot (final_state ?t) 0" and "\<not> both_hot (final_state ?t) 1" by simp_all
  with r h1 h2 h3 show ?thesis by simp
qed

section \<open>Alarm snapshots replace the alarms of one shelf\<close>

lemma py_eq_sym: "py_eq a b = py_eq b a"
  by (auto simp: py_eq_def)

lemma list_setitem_index: "list_setitem xs i v = Inr ys \<Longrightarrow> py_eq i i"
  by (auto simp: list_setitem_def py_eq_def split: json.splits)

lemma status_entry_index:
  assumes "status_entry now k sh st = Done st'" and "entry_idx k sh = Some idx"
  shows "py_eq idx idx"
proof -
  from assms(1) obtain inc idx' temp lt where
    "py_get sh ''shelf'' (JInt (int k)) = Inr inc" "py_add_int inc (- 1) = Inr idx'"
    "list_setitem (latest_temp st) idx' temp = Inr lt"
    by (rule status_entry_steps)
  with assms(2) show ?thesis by (auto simp: entry_idx_def dest: list_setitem_index)
qed

lemma fold_insert_new:
  "foldl insert_new L rs =
     L @ keep_first (filter (\<lambda>r. \<not> (\<exists>a\<in>set L. py_eq (name a) (name r))) rs)"
proof (induction rs arbitrary: L)
  case Nil
  then show ?case by simp
next
  case (Cons r rs)
  show ?case
  proof (cases "\<exists>a\<in>set L. py_eq (name a) (name r)")
    case True
    then have "insert_new L r = L" and "\<not> (\<forall>a\<in>set L. \<not> py_eq (name a) (name r))"
      by (auto simp: insert_new_def)
    then show ?thesis using Cons.IH [of L] by auto
  next
    case False
    have "filter (\<lambda>x. \<not> (\<exists>a\<in>set (L @ [r]). py_eq (name a) (name x))) rs
        = filter (\<lambda>x. \<not> py_eq (name x) (name r)) (filter (\<lambda>x. \<not> (\<exists>a\<in>set L. py_eq (name a) (name x))) rs)"
      by (auto simp: py_eq_sym [of "name r"] intro: filter_cong)
    moreover from False have "insert_new L r = L @ [r]" and "\<forall>a\<in>set L. \<not> py_eq (name a) (name r)"
      by (auto simp: insert_new_def)
    ultimately show ?thesis using Cons.IH [of "L @ [r]"] by simp
  qed
qed

lemma fold_insert_new_empty: "foldl insert_new [] rs = keep_first rs"
  using fold_insert_new [of "[]" rs] by simp

lemma find_alarm_None_iff:
  "find_alarm st sev idx nm = None \<longleftrightarrow> \<not> (\<exists>a\<in>set (shelf_records idx st sev). py_eq (name a) nm)"
  by (auto simp: find_alarm_def find_None_iff shelf_records_def alarm_matches_def)

lemma shelf_records_raise_rec:
  "shelf r = idx \<Longrightarrow> py_eq idx idx \<Longrightarrow>
   shelf_records idx (raise_rec sev r st) sev' =
     (if sev' = sev then insert_new (shelf_records idx st sev) r else shelf_records idx st sev')"
  by (cases r)
     (auto simp: raise_rec_def shelf_records_def bucket_add_alarm insert_new_def
        find_alarm_None_iff [unfolded shelf_records_def])

lemma bucket_raise_rec_unequal:
  "\<not> py_eq (shelf r) (shelf r) \<Longrightarrow>
   bucket (raise_rec sev r st) sev' = (if sev' = sev then bucket st sev @ [r] else bucket st sev')"
  by (cases r) (simp add: raise_rec_def bucket_add_alarm find_alarm_unequal)

lemma other_shelves_add_alarm:
  "py_eq idx idx \<Longrightarrow>
   other_shelves idx (add_alarm now sev idx nm ds ak st) sev' = other_shelves idx st sev'"
  by (simp add: other_shelves_def bucket_add_alarm)

lemma py_upper_Inr: "py_upper v = Inr s \<Longrightarrow> upper_or_empty v = s"
  by (simp add: upper_or_empty_def)

lemma py_item_Inr: "py_item a k = Inr v \<Longrightarrow> v = pick k a d"
  by (cases a) (auto simp: pick_def carried_def split: option.splits)

lemma status_alarm_Done_eq:
  assumes "status_alarm now idx a s = Done s'"
  shows "s' = (if status_active a then raise_rec (status_sev a) (status_record now idx a) s else s)"
  using assms unfolding status_alarm_def
  by (elim try_val_DoneE)
     (auto simp: status_active_def status_sev_def status_record_def raise_rec_def
        split: if_splits elim!: try_val_DoneE dest!: py_get_Inr py_upper_Inr)

lemma alarm_state_alarm_Done_eq:
  assumes "alarm_state_alarm now idx a s = Done s'"
  shows "s' = (if snapshot_active a then raise_rec (snapshot_sev a) (snapshot_record now idx a) s else s)"
proof -
  from assms obtain sv sev act where
    sv: "py_get a ''severity'' JNull = Inr sv"
    and up: "py_upper (if py_truthy sv then sv else JStr ''ERROR'') = Inr sev"
    and act: "py_get a ''active'' JNull = Inr act"
    and rest: "(if py_truthy act
       then try_val (py_item a ''name'') s (\<lambda>nm.
            try_val (py_get a ''desc'' nm) s (\<lambda>ds.
            try_val (py_get a ''ack'' (JBool False)) s (\<lambda>ak.
            Done (add_alarm now sev idx nm ds ak s))))
       else Done s) = Done s'"
    unfolding alarm_state_alarm_def by (elim try_val_DoneE) blast
  from sv have sv': "sv = pick ''severity'' a JNull" by (rule py_get_Inr)
  from up have sev: "snapshot_sev a = sev"
    unfolding snapshot_sev_def sv' [symmetric] by (rule py_upper_Inr)
  from act have a: "snapshot_active a = py_truthy act"
    by (auto simp: snapshot_active_def dest: py_get_Inr)
  show ?thesis
  proof (cases "py_truthy act")
    case False
    with rest a show ?thesis by simp
  next
    case True
    with rest obtain nm ds ak where
      "py_item a ''name'' = Inr nm" "py_get a ''desc'' nm = Inr ds"
      "py_get a ''ack'' (JBool False) = Inr ak" "s' = add_alarm now sev idx nm ds ak s"
      by (auto elim!: try_val_DoneE)
    moreover from this have "nm = pick ''name'' a JNull" "ds = pick ''desc'' a nm"
      "ak = pick ''ack'' a (JBool False)"
      by (auto dest: py_item_Inr py_get_Inr)
    ultimately show ?thesis using True a sev
      by (simp add: raise_rec_def snapshot_record_def)
  qed
qed

lemma for_each_fold:
  assumes "\<And>x s s'. body x s = Done s' \<Longrightarrow> s' = step s x"
    and "for_each body xs st = Done st'"
  shows "st' = foldl step st xs"
  using assms(2)
proof (induction xs arbitrary: st)
  case Nil
  then show ?case by simp
next
  case (Cons x xs)
  from Cons.prems obtain s where s: "body x st = Done s" and r: "for_each body xs s = Done st'"
    by (auto elim: and_then_DoneE)
  from assms(1) [OF s] Cons.IH [OF r] show ?case by simp
qed

lemma shelf_records_fold:
  assumes "\<And>a. shelf (rc a) = idx" and "py_eq idx idx"
  shows "shelf_records idx (foldl (\<lambda>s a. if act a then raise_rec (sv a) (rc a) s else s) st as) sev
     = foldl insert_new (shelf_records idx st sev) (map rc (filter (\<lambda>a. act a \<and> sv a = sev) as))"
proof (induction as arbitrary: st)
  case Nil
  then show ?case by simp
next
  case (Cons a as)
  show ?case
    by (simp add: Cons.IH shelf_records_raise_rec [OF assms])
qed

lemma bucket_fold_unequal:
  assumes "\<And>a. \<not> py_eq (shelf (rc a)) (shelf (rc a))"
  shows "bucket (foldl (\<lambda>s a. if act a then raise_rec (sv a) (rc a) s else s) st as) sev
     = bucket st sev @ map rc (filter (\<lambda>a. act a \<and> sv a = sev) as)"
proof (induction as arbitrary: st)
  case Nil
  then show ?case by simp
next
  case (Cons a as)
  show ?case
    by (simp add: Cons.IH bucket_raise_rec_unequal [OF assms])
qed

lemma bucket_drop_shelf_bucket:
  "bucket (final_state (drop_shelf_bucket sev idx st)) sev' =
     (if sev' = sev then filter (\<lambda>a. \<not> py_eq (shelf a) idx) (bucket st sev) else bucket st sev')"
  by (auto simp: drop_shelf_bucket_def bucket_def update_conv' split: option.splits)

lemma final_state_drop_shelf_alarms:
  "final_state (drop_shelf_alarms idx st) =
     (if map_of (alarms st) ''CRITICAL'' = None then st
      else final_state (drop_shelf_bucket ''ERROR'' idx (final_state (drop_shelf_bucket ''CRITICAL'' idx st))))"
  by (auto simp: drop_shelf_alarms_def drop_shelf_bucket_def split: option.splits)

lemma other_shelves_drop:
  "other_shelves idx (final_state (drop_shelf_alarms idx st)) sev = other_shelves idx st sev"
  by (auto simp: final_state_drop_shelf_alarms other_shelves_def bucket_drop_shelf_bucket
      intro: filter_cong)

lemma shelf_records_drop:
  assumes "drop_shelf_alarms idx st = Done s1"
  shows "shelf_records idx s1 sev = (if covered sev then [] else shelf_records idx st sev)"
proof -
  from assms have c: "map_of (alarms st) ''CRITICAL'' \<noteq> None"
    by (auto simp: drop_shelf_alarms_def drop_shelf_bucket_def split: option.splits)
  from assms have "s1 = final_state (drop_shelf_alarms idx st)" by simp
  with c show ?thesis
    by (auto simp: final_state_drop_shelf_alarms shelf_records_def bucket_drop_shelf_bucket covered_def)
qed

lemma bucket_drop_unequal:
  assumes "drop_shelf_alarms idx st = Done s1" and "\<not> py_eq idx idx"
  shows "bucket s1 sev = bucket st sev"
proof -
  from assms(1) have c: "map_of (alarms st) ''CRITICAL'' \<noteq> None"
    by (auto simp: drop_shelf_alarms_def drop_shelf_bucket_def split: option.splits)
  from assms(2) have n: "\<not> py_eq x idx" for x by (simp add: py_eq_def)
  from assms(1) have "s1 = final_state (drop_shelf_alarms idx st)" by simp
  with c show ?thesis
    by (simp add: final_state_drop_shelf_alarms bucket_drop_shelf_bucket n)
qed

lemma for_each_final:
  assumes "\<And>x s. f (final_state (body x s)) = f s"
  shows "f (final_state (for_each body xs st)) = f st"
proof (induction xs arbitrary: st)
  case Nil
  then show ?case by simp
next
  case (Cons x xs)
  show ?case
  proof (cases "body x st")
    case (Done s)
    with assms [of x st] Cons.IH [of s] show ?thesis by simp
  next
    case (Raised e s)
    with assms [of x st] show ?thesis by simp
  qed
qed

lemma status_alarm_final:
  "final_state (status_alarm now idx a s) = s \<or>
   (\<exists>sev nm ds ak. final_state (status_alarm now idx a s) = add_alarm now sev idx nm ds ak s)"
  unfolding status_alarm_def try_val_def
  by (auto split: sum.splits)

lemma alarm_state_alarm_final:
  "final_state (alarm_state_alarm now idx a s) = s \<or>
   (\<exists>sev nm ds ak. final_state (alarm_state_alarm now idx a s) = add_alarm now sev idx nm ds ak s)"
  unfolding alarm_state_alarm_def try_val_def
  by (auto split: sum.splits)

lemma other_shelves_status_alarm:
  "py_eq idx idx \<Longrightarrow>
   other_shelves idx (final_state (status_alarm now idx a s)) sev = other_shelves idx s sev"
  using status_alarm_final [of now idx a s] by (auto simp: other_shelves_add_alarm)

lemma other_shelves_alarm_state_alarm:
  "py_eq idx idx \<Longrightarrow>
   other_shelves idx (final_state (alarm_state_alarm now idx a s)) sev = other_shelves idx s sev"
  using alarm_state_alarm_final [of now idx a s] by (auto simp: other_shelves_add_alarm)

lemma other_shelves_status_alarms:
  assumes q: "py_eq idx idx"
  shows "other_shelves idx (final_state (status_alarms now idx sh st)) sev = other_shelves idx st sev"
proof (cases "drop_shelf_alarms idx st")
  case (Raised e s)
  then have "final_state (status_alarms now idx sh st) = final_state (drop_shelf_alarms idx st)"
    by (simp add: status_alarms_def)
  then show ?thesis by (simp add: other_shelves_drop)
next
  case (Done s1)
  then have s1: "other_shelves idx s1 sev = other_shelves idx st sev"
    using other_shelves_drop [of idx st sev] by simp
  have l: "other_shelves idx (final_state (for_each (status_alarm now idx) as s1)) sev
      = other_shelves idx s1 sev" for as
    by (rule for_each_final [where f = "\<lambda>s. other_shelves idx s sev"])
       (rule other_shelves_status_alarm [OF q])
  have "other_shelves idx (final_state (status_alarms now idx sh st)) sev = other_shelves idx s1 sev"
    using Done l
    by (auto simp: status_alarms_def try_val_def split: sum.splits)
  with s1 show ?thesis by simp
qed

lemma other_shelves_last_update:
  "other_shelves idx (st\<lparr>last_update_ts := t\<rparr>) sev = other_shelves idx st sev"
  by (simp add: other_shelves_def bucket_def)

lemma other_shelves_alarm_state:
  assumes "py_get msg ''shelf'' (JInt 1) = Inr v" and "py_add_int v (- 1) = Inr idx"
    and q: "py_eq idx idx"
  shows "other_shelves idx (final_state (process_alarm_state now msg st)) sev = other_shelves idx st sev"
proof (cases "drop_shelf_alarms idx st")
  case (Raised e s)
  then have "final_state (process_alarm_state now msg st) = final_state (drop_shelf_alarms idx st)"
    using assms by (simp add: process_alarm_state_def)
  then show ?thesis by (simp add: other_shelves_drop)
next
  case (Done s1)
  then have s1: "other_shelves idx s1 sev = other_shelves idx st sev"
    using other_shelves_drop [of idx st sev] by simp
  have l: "other_shelves idx (final_state (for_each (alarm_state_alarm now idx) as s1)) sev
      = other_shelves idx s1 sev" for as
    by (rule for_each_final [where f = "\<lambda>s. other_shelves idx s sev"])
       (rule other_shelves_alarm_state_alarm [OF q])
  have "other_shelves idx (final_state (process_alarm_state now msg st)) sev = other_shelves idx s1 sev"
    using Done assms(1,2) l
    by (auto simp: process_alarm_state_def try_val_def and_then_def other_shelves_last_update
        split: sum.splits outcome.splits)
       (metis final_state.simps other_shelves_last_update)+
  with s1 show ?thesis by simp
qed

lemma status_alarms_records:
  assumes "status_alarms now idx sh st = Done st'"
    and "py_iter (pick ''alarms'' sh (JList [])) = Inr as" and q: "py_eq idx idx"
  shows "shelf_records idx st' sev =
           (if covered sev then keep_first (status_raised now idx as sev)
            else foldl insert_new (shelf_records idx st sev) (status_raised now idx as sev))"
proof -
  from assms(1) obtain s1 al as' where d: "drop_shelf_alarms idx st = Done s1"
    and g: "py_get sh ''alarms'' (JList []) = Inr al" and i: "py_iter al = Inr as'"
    and f: "for_each (status_alarm now idx) as' s1 = Done st'"
    unfolding status_alarms_def by (elim and_then_DoneE try_val_DoneE) blast
  from g i assms(2) have "as' = as" by (auto dest: py_get_Inr)
  with f have "st' = foldl (\<lambda>s a. if status_active a
      then raise_rec (status_sev a) (status_record now idx a) s else s) s1 as"
    by (intro for_each_fold [where body = "status_alarm now idx"]) (auto dest: status_alarm_Done_eq)
  moreover have "\<And>a. shelf (status_record now idx a) = idx"
    by (simp add: status_record_def)
  ultimately show ?thesis
    using shelf_records_drop [OF d, of sev] q
    by (simp add: shelf_records_fold fold_insert_new_empty status_raised_def)
qed

lemma status_entry_alarms:
  assumes "status_entry now j sh s = Done s'"
  shows "\<exists>idx as. entry_idx j sh = Some idx \<and> py_eq idx idx
    \<and> py_iter (pick ''alarms'' sh (JList [])) = Inr as
    \<and> (\<forall>sev. other_shelves idx s' sev = other_shelves idx s sev)
    \<and> (\<forall>sev. shelf_records idx s' sev =
           (if covered sev then keep_first (status_raised now idx as sev)
            else foldl insert_new (shelf_records idx s sev) (status_raised now idx as sev)))"
proof -
  from assms obtain idx lt xs h where
    e: "entry_idx j sh = Some idx"
    and a: "status_alarms now idx sh
       (s\<lparr>latest_temp := lt, shelves := xs, hist := h,
           maintenance := entry_hours sh (maintenance s)\<rparr>) = Done s'"
    by (rule status_entry_Done)
  let ?s6 = "s\<lparr>latest_temp := lt, shelves := xs, hist := h,
           maintenance := entry_hours sh (maintenance s)\<rparr>"
  from assms e have q: "py_eq idx idx" by (rule status_entry_index)
  have b: "other_shelves idx ?s6 sev = other_shelves idx s sev"
    and c: "shelf_records idx ?s6 sev = shelf_records idx s sev" for sev
    by (simp_all add: other_shelves_def shelf_records_def bucket_def)
  from a obtain as where it: "py_iter (pick ''alarms'' sh (JList [])) = Inr as"
    unfolding status_alarms_def
    by (elim and_then_DoneE try_val_DoneE) (auto dest: py_get_Inr)
  have 1: "other_shelves idx s' sev = other_shelves idx s sev" for sev
    using other_shelves_status_alarms [OF q, of now sh ?s6 sev] a b by simp
  have 2: "shelf_records idx s' sev =
           (if covered sev then keep_first (status_raised now idx as sev)
            else foldl insert_new (shelf_records idx s sev) (status_raised now idx as sev))" for sev
    using status_alarms_records [OF a it q, of sev] c by simp
  from e q it 1 2 show ?thesis by blast
qed

lemma alarm_state_steps:
  assumes "process_alarm_state now msg st = Done st'"
    and "py_add_int (pick ''shelf'' msg (JInt 1)) (- 1) = Inr idx"
    and "py_iter (pick ''alarms'' msg (JList [])) = Inr as"
  obtains s1 s2 where "drop_shelf_alarms idx st = Done s1"
    and "s2 = foldl (\<lambda>s a. if snapshot_active a
            then raise_rec (snapshot_sev a) (snapshot_record now idx a) s else s) s1 as"
    and "st' = s2\<lparr>last_update_ts := now\<rparr>"
proof -
  from assms(1) obtain v idx' s1 al as' s2 where
    v: "py_get msg ''shelf'' (JInt 1) = Inr v" and x: "py_add_int v (- 1) = Inr idx'"
    and d: "drop_shelf_alarms idx' st = Done s1"
    and g: "py_get msg ''alarms'' (JList []) = Inr al" and i: "py_iter al = Inr as'"
    and f: "for_each (alarm_state_alarm now idx') as' s1 = Done s2"
    and e: "st' = s2\<lparr>last_update_ts := now\<rparr>"
    unfolding process_alarm_state_def by (elim and_then_DoneE try_val_DoneE) auto
  from v x assms(2) have idx: "idx' = idx" by (auto dest: py_get_Inr)
  from g i assms(3) have "as' = as" by (auto dest: py_get_Inr)
  with f idx have "s2 = foldl (\<lambda>s a. if snapshot_active a
      then raise_rec (snapshot_sev a) (snapshot_record now idx a) s else s) s1 as"
    by (intro for_each_fold [where body = "alarm_state_alarm now idx"])
       (auto dest: alarm_state_alarm_Done_eq)
  with d idx e show ?thesis using that by blast
qed

lemma alarm_state_records:
  assumes "process_alarm_state now msg st = Done st'"
    and "py_add_int (pick ''shelf'' msg (JInt 1)) (- 1) = Inr idx"
    and "py_iter (pick ''alarms'' msg (JList [])) = Inr as" and q: "py_eq idx idx"
  shows "shelf_records idx st' sev =
           (if covered sev then keep_first (snapshot_raised now idx as sev)
            else foldl insert_new (shelf_records idx st sev) (snapshot_raised now idx as sev))"
proof -
  from assms(1-3) obtain s1 s2 where d: "drop_shelf_alarms idx st = Done s1"
    and f: "s2 = foldl (\<lambda>s a. if snapshot_active a
            then raise_rec (snapshot_sev a) (snapshot_record now idx a) s else s) s1 as"
    and e: "st' = s2\<lparr>last_update_ts := now\<rparr>"
    by (rule alarm_state_steps)
  from e have "shelf_records idx st' sev = shelf_records idx s2 sev"
    by (simp add: shelf_records_def bucket_def)
  moreover have "\<And>a. shelf (snapshot_record now idx a) = idx"
    by (simp add: snapshot_record_def)
  ultimately show ?thesis
    using shelf_records_drop [OF d, of sev] q f
    by (simp add: shelf_records_fold fold_insert_new_empty snapshot_raised_def)
qed

lemma alarm_state_unequal:
  assumes "process_alarm_state now msg st = Done st'"
    and "py_add_int (pick ''shelf'' msg (JInt 1)) (- 1) = Inr idx"
    and "py_iter (pick ''alarms'' msg (JList [])) = Inr as" and q: "\<not> py_eq idx idx"
  shows "bucket st' sev = bucket st sev @ snapshot_raised now idx as sev"
proof -
  from assms(1-3) obtain s1 s2 where d: "drop_shelf_alarms idx st = Done s1"
    and f: "s2 = foldl (\<lambda>s a. if snapshot_active a
            then raise_rec (snapshot_sev a) (snapshot_record now idx a) s else s) s1 as"
    and e: "st' = s2\<lparr>last_update_ts := now\<rparr>"
    by (rule alarm_state_steps)
  from e have "bucket st' sev = bucket s2 sev" by (simp add: bucket_def)
  moreover have "\<And>a. \<not> py_eq (shelf (snapshot_record now idx a)) (shelf (snapshot_record now idx a))"
    using q by (simp add: snapshot_record_def)
  ultimately show ?thesis
    using bucket_drop_unequal [OF d q, of sev] f
    by (simp add: bucket_fold_unequal snapshot_raised_def)
qed

text \<open>
  Claim C4, as the code has it. The alarm mapping of a \<^verbatim>\<open>STATUS\<close> entry and an
  \<^verbatim>\<open>ALARM_STATE\<close> message leave the records of every other shelf as they were, in every
  bucket, also when the processing raises. When the processing returns, the records of
  the shelf in the CRITICAL and in the ERROR bucket are exactly the records built from
  the list elements flagged active with that severity, in their order, each with the
  acknowledged flag the source gave (one record per name: of two active elements of the
  same name and severity the first is raised); nothing that was there before remains.
  In a bucket of any other severity nothing is dropped: the records of the shelf stay as
  they were, with their acknowledged flag and time, and an element flagged active adds
  a record only when the shelf has none of that name in the bucket. The shelf index of
  a \<^verbatim>\<open>STATUS\<close> entry that returns is an integer; that of an \<^verbatim>\<open>ALARM_STATE\<close> message can be
  NaN, which no record's shelf equals: then nothing is dropped and every element flagged
  active adds a record.
\<close>

theorem snapshot_replaces_shelf:
  "(py_eq idx idx \<longrightarrow>
      (\<forall>sev. other_shelves idx (final_state (status_alarms now idx sh st)) sev = other_shelves idx st sev))
   \<and> (status_entry now k sh st = Done st' \<longrightarrow>
        (\<exists>idx as. entry_idx k sh = Some idx \<and> py_eq idx idx \<and>
           py_iter (pick ''alarms'' sh (JList [])) = Inr as \<and>
           (\<forall>sev. other_shelves idx st' sev = other_shelves idx st sev) \<and>
           (\<forall>sev. shelf_records idx st' sev =
                (if covered sev then keep_first (status_raised now idx as sev)
                 else foldl insert_new (shelf_records idx st sev) (status_raised now idx as sev)))))
   \<and> (map_of m ''type'' = Some (JStr ''ALARM_STATE'') \<and>
      py_add_int (pick ''shelf'' (JDict m) (JInt 1)) (- 1) = Inr i \<longrightarrow>
        (py_eq i i \<longrightarrow>
          (\<forall>sev. other_shelves i (final_state (process_msg now (JDict m) st)) sev = other_shelves i st sev)) \<and>
        (process_msg now (JDict m) st = Done st2 \<and>
         py_iter (pick ''alarms'' (JDict m) (JList [])) = Inr bs \<longrightarrow>
          (py_eq i i \<longrightarrow>
            (\<forall>sev. shelf_records i st2 sev =
                 (if covered sev then keep_first (snapshot_raised now i bs sev)
                  else foldl insert_new (shelf_records i st sev) (snapshot_raised now i bs sev)))) \<and>
          (\<not> py_eq i i \<longrightarrow>
            (\<forall>sev. bucket st2 sev = bucket st sev @ snapshot_raised now i bs sev))))"
proof (intro conjI impI allI)
  fix sev
  assume "py_eq idx idx"
  then show "other_shelves idx (final_state (status_alarms now idx sh st)) sev = other_shelves idx st sev"
    by (rule other_shelves_status_alarms)
next
  assume "status_entry now k sh st = Done st'"
  then show "\<exists>idx as. entry_idx k sh = Some idx \<and> py_eq idx idx \<and>
           py_iter (pick ''alarms'' sh (JList [])) = Inr as \<and>
           (\<forall>sev. other_shelves idx st' sev = other_shelves idx st sev) \<and>
           (\<forall>sev. shelf_records idx st' sev =
                (if covered sev then keep_first (status_raised now idx as sev)
                 else foldl insert_new (shelf_records idx st sev) (status_raised now idx as sev)))"
    by (rule status_entry_alarms)
next
  fix sev
  assume a: "map_of m ''type'' = Some (JStr ''ALARM_STATE'') \<and>
      py_add_int (pick ''shelf'' (JDict m) (JInt 1)) (- 1) = Inr i"
    and q: "py_eq i i"
  then have p: "process_msg now (JDict m) st = process_alarm_state now (JDict m) st"
    by (simp add: process_msg_def)
  from a have x: "py_add_int (pick ''shelf'' (JDict m) (JInt 1)) (- 1) = Inr i" by simp
  show "other_shelves i (final_state (process_msg now (JDict m) st)) sev = other_shelves i st sev"
    unfolding p by (rule other_shelves_alarm_state [OF py_get_JDict_pick x q])
next
  fix sev
  assume a: "map_of m ''type'' = Some (JStr ''ALARM_STATE'') \<and>
      py_add_int (pick ''shelf'' (JDict m) (JInt 1)) (- 1) = Inr i"
    and b: "process_msg now (JDict m) st = Done st2 \<and>
         py_iter (pick ''alarms'' (JDict m) (JList [])) = Inr bs"
    and q: "py_eq i i"
  from a have p: "process_msg now (JDict m) st = process_alarm_state now (JDict m) st"
    by (simp add: process_msg_def)
  from a have x: "py_add_int (pick ''shelf'' (JDict m) (JInt 1)) (- 1) = Inr i" by simp
  from b have d: "process_alarm_state now (JDict m) st = Done st2"
    and it: "py_iter (pick ''alarms'' (JDict m) (JList [])) = Inr bs"
    unfolding p by simp_all
  show "shelf_records i st2 sev =
                 (if covered sev then keep_first (snapshot_raised now i bs sev)
                  else foldl insert_new (shelf_records i st sev) (snapshot_raised now i bs sev))"
    by (rule alarm_state_records [OF d x it q])
next
  fix sev
  assume a: "map_of m ''type'' = Some (JStr ''ALARM_STATE'') \<and>
      py_add_int (pick ''shelf'' (JDict m) (JInt 1)) (- 1) = Inr i"
    and b: "process_msg now (JDict m) st = Done st2 \<and>
         py_iter (pick ''alarms'' (JDict m) (JList [])) = Inr bs"
    and q: "\<not> py_eq i i"
  from a have p: "process_msg now (JDict m) st = process_alarm_state now (JDict m) st"
    by (simp add: process_msg_def)
  from a have x: "py_add_int (pick ''shelf'' (JDict m) (JInt 1)) (- 1) = Inr i" by simp
  from b have d: "process_alarm_state now (JDict m) st = Done st2"
    and it: "py_iter (pick ''alarms'' (JDict m) (JList [])) = Inr bs"
    unfolding p by simp_all
  show "bucket st2 sev = bucket st sev @ snapshot_raised now i bs sev"
    by (rule alarm_state_unequal [OF d x it q])
qed

lemma upper_critical: "py_upper (JStr ''critical'') = Inr ''CRITICAL''"
  by code_simp

lemma upper_error: "py_upper (JStr ''ERROR'') = Inr ''ERROR''"
  by code_simp

lemma fan_state_explicit:
  "fan_state = (init_state 0)\<lparr>
     alarms := [(''CRITICAL'', []),
                (''ERROR'', [\<lparr>shelf = JInt 0, name = JStr ''OVERTEMP'', desc = JStr ''x'', ts = 1, ack = JBool False\<rparr>,
                             \<lparr>shelf = JInt 1, name = JStr ''FAN'', desc = JStr ''fan stalled'', ts = 1, ack = JBool False\<rparr>])],
     logs := [LogAlarm 1 ''ERROR'' (JInt 0) (JStr ''OVERTEMP''), LogAlarm 1 ''ERROR'' (JInt 1) (JStr ''FAN'')]\<rparr>"
  by (simp add: fan_state_def add_alarm_new find_alarm_def bucket_def init_state_explicit setdefault_def
      alarm_matches_def deque_append_short LOG_LIMIT_def)

lemma overheat_snapshot_run:
  "process_msg 2 overheat_snapshot fan_state = Done (fan_state\<lparr>
     alarms := [(''CRITICAL'', [\<lparr>shelf = JInt 0, name = JStr ''OVERHEAT'', desc = JStr ''OVERHEAT'', ts = 2, ack = JBool True\<rparr>]),
                (''ERROR'', [\<lparr>shelf = JInt 1, name = JStr ''FAN'', desc = JStr ''fan stalled'', ts = 1, ack = JBool False\<rparr>])],
     logs := [LogAlarm 1 ''ERROR'' (JInt 0) (JStr ''OVERTEMP''), LogAlarm 1 ''ERROR'' (JInt 1) (JStr ''FAN''),
              LogAlarm 2 ''CRITICAL'' (JInt 0) (JStr ''OVERHEAT'')],
     last_update_ts := 2\<rparr>)"
  by (simp add: process_msg_def overheat_snapshot_def process_alarm_state_def drop_shelf_alarms_def
      drop_shelf_bucket_def fan_state_explicit init_state_explicit alarm_state_alarm_def
      upper_critical upper_error add_alarm_new find_alarm_def bucket_def setdefault_def
      alarm_matches_def deque_append_short LOG_LIMIT_def del: py_upper.simps)

lemma mixed_state_explicit:
  "mixed_state = (init_state 0)\<lparr>
     alarms := [(''CRITICAL'', []),
                (''ERROR'', [\<lparr>shelf = JInt 0, name = JStr ''OVERTEMP'', desc = JStr ''x'', ts = 1, ack = JBool False\<rparr>,
                             \<lparr>shelf = JInt 1, name = JStr ''FAN'', desc = JStr ''fan stalled'', ts = 1, ack = JBool False\<rparr>]),
                (''WARNING'', [\<lparr>shelf = JInt 0, name = JStr ''DOOR'', desc = JStr ''door open'', ts = 1, ack = JBool False\<rparr>])],
     logs := [LogAlarm 1 ''ERROR'' (JInt 0) (JStr ''OVERTEMP''), LogAlarm 1 ''ERROR'' (JInt 1) (JStr ''FAN''),
              LogAlarm 1 ''WARNING'' (JInt 0) (JStr ''DOOR'')]\<rparr>"
  by (simp add: mixed_state_def fan_state_explicit add_alarm_new find_alarm_def bucket_def
      init_state_explicit setdefault_def alarm_matches_def deque_append_short LOG_LIMIT_def)

lemma acked_snapshot_run:
  "process_msg 2 acked_snapshot mixed_state = Done (mixed_state\<lparr>
     alarms := [(''CRITICAL'', [\<lparr>shelf = JInt 0, name = JStr ''OVERHEAT'', desc = JStr ''OVERHEAT'', ts = 2, ack = JBool True\<rparr>]),
                (''ERROR'', [\<lparr>shelf = JInt 1, name = JStr ''FAN'', desc = JStr ''fan stalled'', ts = 1, ack = JBool False\<rparr>]),
                (''WARNING'', [\<lparr>shelf = JInt 0, name = JStr ''DOOR'', desc = JStr ''door open'', ts = 1, ack = JBool False\<rparr>])],
     logs := [LogAlarm 1 ''ERROR'' (JInt 0) (JStr ''OVERTEMP''), LogAlarm 1 ''ERROR'' (JInt 1) (JStr ''FAN''),
              LogAlarm 1 ''WARNING'' (JInt 0) (JStr ''DOOR''), LogAlarm 2 ''CRITICAL'' (JInt 0) (JStr ''OVERHEAT'')],
     last_update_ts := 2\<rparr>)"
  by (simp add: process_msg_def acked_snapshot_def acked_alarms_def process_alarm_state_def
      drop_shelf_alarms_def drop_shelf_bucket_def mixed_state_explicit init_state_explicit
      alarm_state_alarm_def upper_critical upper_warning add_alarm_new add_alarm_found
      find_alarm_def bucket_def setdefault_def alarm_matches_def deque_append_short LOG_LIMIT_def
      del: py_upper.simps)

lemma acked_entry_run:
  "status_entry 2 0 acked_entry mixed_state = Done (mixed_state\<lparr>
     alarms := [(''CRITICAL'', [\<lparr>shelf = JInt 0, name = JStr ''OVERHEAT'', desc = JStr ''OVERHEAT'', ts = 2, ack = JBool True\<rparr>]),
                (''ERROR'', [\<lparr>shelf = JInt 1, name = JStr ''FAN'', desc = JStr ''fan stalled'', ts = 1, ack = JBool False\<rparr>]),
                (''WARNING'', [\<lparr>shelf = JInt 0, name = JStr ''DOOR'', desc = JStr ''door open'', ts = 1, ack = JBool False\<rparr>])],
     logs := [LogAlarm 1 ''ERROR'' (JInt 0) (JStr ''OVERTEMP''), LogAlarm 1 ''ERROR'' (JInt 1) (JStr ''FAN''),
              LogAlarm 1 ''WARNING'' (JInt 0) (JStr ''DOOR''), LogAlarm 2 ''CRITICAL'' (JInt 0) (JStr ''OVERHEAT'')]\<rparr>)"
  by (simp add: acked_entry_def acked_alarms_def mixed_state_explicit init_state_explicit
      status_entry_def list_setitem_JInt shelf_update_JInt status_hours_def status_alarms_def
      drop_shelf_alarms_def drop_shelf_bucket_def Let_def status_alarm_def add_alarm_new
      add_alarm_found find_alarm_def bucket_def setdefault_def alarm_matches_def LOG_LIMIT_def
      deque_append_short upper_critical upper_warning default_shelf_def del: py_upper.simps)

text \<open>
  Claim C4 as stated fails: the first shelf has an unacknowledged WARNING alarm named
  DOOR, raised at time 1; a snapshot for that shelf flags DOOR active, with the severity
  warning and acknowledged. The snapshot returns, and the record of the shelf in the
  WARNING bucket is the old one, unacknowledged and raised at time 1: the alarm has not
  been raised again with the acknowledged state of the source.
\<close>

theorem snapshot_keeps_warning_counterexample:
  "map snapshot_active acked_alarms = [True, True]
   \<and> map ack (snapshot_raised 2 (JInt 0) acked_alarms ''WARNING'') = [JBool True]
   \<and> returned (process_msg 2 acked_snapshot mixed_state)
   \<and> map name (shelf_records (JInt 0) (final_state (process_msg 2 acked_snapshot mixed_state)) ''WARNING'')
       = [JStr ''DOOR'']
   \<and> map ack (shelf_records (JInt 0) (final_state (process_msg 2 acked_snapshot mixed_state)) ''WARNING'')
       = [JBool False]
   \<and> map ts (shelf_records (JInt 0) (final_state (process_msg 2 acked_snapshot mixed_state)) ''WARNING'')
       = [1]"
  by (simp add: acked_snapshot_run)
     (simp add: shelf_records_def bucket_def snapshot_raised_def acked_alarms_def snapshot_active_def
        snapshot_sev_def snapshot_record_def pick_def carried_def upper_or_empty_def upper_critical
        upper_warning del: py_upper.simps)

text \<open>Claim C4 at a snapshot for the first shelf, which reports an acknowledged CRITICAL
  overheat and an inactive overtemperature, in a state with an ERROR alarm on each
  shelf; and at a \<^verbatim>\<open>STATUS\<close> entry for the first shelf, which reports an acknowledged
  WARNING and an acknowledged CRITICAL alarm, in a state where the shelf has an
  unacknowledged WARNING alarm of that name and an ERROR alarm.\<close>

theorem snapshot_replaces_shelf_witness:
  "returned (process_msg 2 overheat_snapshot fan_state)
   \<and> map name (shelf_records (JInt 0) fan_state ''ERROR'') = [JStr ''OVERTEMP'']
   \<and> shelf_records (JInt 0) (final_state (process_msg 2 overheat_snapshot fan_state)) ''ERROR'' = []
   \<and> map (\<lambda>a. (name a, ack a))
        (shelf_records (JInt 0) (final_state (process_msg 2 overheat_snapshot fan_state)) ''CRITICAL'')
       = [(JStr ''OVERHEAT'', JBool True)]
   \<and> other_shelves (JInt 0) (final_state (process_msg 2 overheat_snapshot fan_state)) ''ERROR''
       = other_shelves (JInt 0) fan_state ''ERROR''
   \<and> returned (status_entry 2 0 acked_entry mixed_state)
   \<and> map name (shelf_records (JInt 0) mixed_state ''ERROR'') = [JStr ''OVERTEMP'']
   \<and> shelf_records (JInt 0) (final_state (status_entry 2 0 acked_entry mixed_state)) ''ERROR'' = []
   \<and> map (\<lambda>a. (name a, ack a, ts a))
        (shelf_records (JInt 0) (final_state (status_entry 2 0 acked_entry mixed_state)) ''CRITICAL'')
       = [(JStr ''OVERHEAT'', JBool True, 2)]
   \<and> map (\<lambda>a. (name a, ack a, ts a))
        (shelf_records (JInt 0) (final_state (status_entry 2 0 acked_entry mixed_state)) ''WARNING'')
       = [(JStr ''DOOR'', JBool False, 1)]
   \<and> map name (other_shelves (JInt 0) (final_state (status_entry 2 0 acked_entry mixed_state)) ''ERROR'')
       = [JStr ''FAN'']"
proof -
  define bs where "bs = [JDict [(''name'', JStr ''OVERHEAT''), (''severity'', JStr ''critical''),
                                       (''active'', JBool True), (''ack'', JBool True)],
                         JDict [(''name'', JStr ''OVERTEMP''), (''active'', JBool False)]]"
  define m where "m = [(''type'', JStr ''ALARM_STATE''), (''shelf'', JInt 1), (''alarms'', JList bs)]"
  define st2 where "st2 = final_state (process_msg 2 overheat_snapshot fan_state)"
  define st' where "st' = final_state (status_entry 2 0 acked_entry mixed_state)"
  have h: "overheat_snapshot = JDict m" by (simp add: overheat_snapshot_def m_def bs_def)
  have r: "returned (process_msg 2 overheat_snapshot fan_state)"
    and d: "process_msg 2 (JDict m) fan_state = Done st2"
    unfolding st2_def h [symmetric] by (simp_all add: overheat_snapshot_run)
  have ty: "map_of m ''type'' = Some (JStr ''ALARM_STATE'') \<and>
      py_add_int (pick ''shelf'' (JDict m) (JInt 1)) (- 1) = Inr (JInt 0)"
    by (simp add: m_def pick_def carried_def)
  have it: "py_iter (pick ''alarms'' (JDict m) (JList [])) = Inr bs"
    by (simp add: m_def pick_def carried_def)
  have q: "py_eq (JInt 0) (JInt 0)" by simp
  note t = snapshot_replaces_shelf [where m = m and i = "JInt 0" and now = 2 and st = fan_state
      and ?st2.0 = st2 and bs = bs and idx = "JInt 0" and sh = acked_entry and k = 0 and st' = st']
  from t ty q have o: "other_shelves (JInt 0) (final_state (process_msg 2 (JDict m) fan_state)) ''ERROR''
      = other_shelves (JInt 0) fan_state ''ERROR''"
    by blast
  from t ty d it q have c: "\<forall>sev. shelf_records (JInt 0) st2 sev =
      (if covered sev then keep_first (snapshot_raised 2 (JInt 0) bs sev)
       else foldl insert_new (shelf_records (JInt 0) fan_state sev) (snapshot_raised 2 (JInt 0) bs sev))"
    by blast
  have k1: "snapshot_raised 2 (JInt 0) bs ''ERROR'' = []"
    by (simp add: snapshot_raised_def bs_def snapshot_active_def snapshot_sev_def pick_def carried_def
        upper_or_empty_def upper_critical del: py_upper.simps)
  have k2: "snapshot_raised 2 (JInt 0) bs ''CRITICAL''
      = [\<lparr>shelf = JInt 0, name = JStr ''OVERHEAT'', desc = JStr ''OVERHEAT'', ts = 2, ack = JBool True\<rparr>]"
    by (simp add: snapshot_raised_def bs_def snapshot_active_def snapshot_sev_def pick_def carried_def
        upper_or_empty_def upper_critical snapshot_record_def del: py_upper.simps)
  from c have a1: "shelf_records (JInt 0) st2 ''ERROR'' = []"
    and a2: "shelf_records (JInt 0) st2 ''CRITICAL''
      = [\<lparr>shelf = JInt 0, name = JStr ''OVERHEAT'', desc = JStr ''OVERHEAT'', ts = 2, ack = JBool True\<rparr>]"
    by (simp_all add: covered_def k1 k2)
  have a3: "map name (shelf_records (JInt 0) fan_state ''ERROR'') = [JStr ''OVERTEMP'']"
    by (simp add: shelf_records_def bucket_def fan_state_explicit)
  have r': "returned (status_entry 2 0 acked_entry mixed_state)"
    and d': "status_entry 2 0 acked_entry mixed_state = Done st'"
    unfolding st'_def by (simp_all add: acked_entry_run)
  note u = snapshot_replaces_shelf [where m = m and i = "JInt 0" and now = 2 and st = mixed_state
      and ?st2.0 = st2 and bs = bs and idx = "JInt 0" and sh = acked_entry and k = 0 and st' = st']
  from u d' obtain idx as where e: "entry_idx 0 acked_entry = Some idx"
    and ia: "py_iter (pick ''alarms'' acked_entry (JList [])) = Inr as"
    and o': "\<forall>sev. other_shelves idx st' sev = other_shelves idx mixed_state sev"
    and c': "\<forall>sev. shelf_records idx st' sev =
                (if covered sev then keep_first (status_raised 2 idx as sev)
                 else foldl insert_new (shelf_records idx mixed_state sev) (status_raised 2 idx as sev))"
    by blast
  from e have idx: "idx = JInt 0" by (simp add: entry_idx_def acked_entry_def)
  from ia have as: "as = acked_alarms" by (simp add: pick_def carried_def acked_entry_def)
  have s1: "status_raised 2 (JInt 0) acked_alarms ''ERROR'' = []"
    and s2: "status_raised 2 (JInt 0) acked_alarms ''CRITICAL''
      = [\<lparr>shelf = JInt 0, name = JStr ''OVERHEAT'', desc = JStr ''OVERHEAT'', ts = 2, ack = JBool True\<rparr>]"
    and s3: "status_raised 2 (JInt 0) acked_alarms ''WARNING''
      = [\<lparr>shelf = JInt 0, name = JStr ''DOOR'', desc = JStr ''DOOR'', ts = 2, ack = JBool True\<rparr>]"
    by (simp_all add: status_raised_def acked_alarms_def status_active_def status_sev_def pick_def
        carried_def upper_or_empty_def upper_critical upper_warning status_record_def
        del: py_upper.simps)
  have w: "shelf_records (JInt 0) mixed_state ''WARNING''
      = [\<lparr>shelf = JInt 0, name = JStr ''DOOR'', desc = JStr ''door open'', ts = 1, ack = JBool False\<rparr>]"
    and a4: "map name (shelf_records (JInt 0) mixed_state ''ERROR'') = [JStr ''OVERTEMP'']"
    and a5: "map name (other_shelves (JInt 0) mixed_state ''ERROR'') = [JStr ''FAN'']"
    by (simp_all add: shelf_records_def other_shelves_def bucket_def mixed_state_explicit)
  from c' have b1: "shelf_records (JInt 0) st' ''ERROR'' = []"
    and b2: "shelf_records (JInt 0) st' ''CRITICAL''
      = [\<lparr>shelf = JInt 0, name = JStr ''OVERHEAT'', desc = JStr ''OVERHEAT'', ts = 2, ack = JBool True\<rparr>]"
    and b3: "shelf_records (JInt 0) st' ''WARNING''
      = [\<lparr>shelf = JInt 0, name = JStr ''DOOR'', desc = JStr ''door open'', ts = 1, ack = JBool False\<rparr>]"
    unfolding idx as by (simp_all add: covered_def s1 s2 s3 w insert_new_def)
  from o' have b4: "other_shelves (JInt 0) st' ''ERROR'' = other_shelves (JInt 0) mixed_state ''ERROR''"
    unfolding idx by simp
  show ?thesis
    using r o a1 a2 a3 r' a4 b1 b2 b3 b4 a5 unfolding st2_def st'_def h by simp
qed

section \<open>A \<^verbatim>\<open>STATUS\<close> message that changes the shelf count\<close>



















end
